theory Spec2Isabelle
  imports Complex_Main "HOL-Library.Stream"
begin

section \<open>utils.py: file names\<close>

text \<open>
  Python strings are modelled as \<^typ>\<open>string\<close>; one \<^typ>\<open>char\<close> stands for one
  character of the Python \<^verbatim>\<open>str\<close>.

  \<^verbatim>\<open>sanitize_filename\<close> substitutes every character of the class
  \<^verbatim>\<open>[<>:"/\\|?*]\<close> by an underscore, strips blanks and dots at both ends, cuts the
  result at 100 characters and falls back to \<^verbatim>\<open>'unknown'\<close> when nothing is left.
\<close>

definition reserved_chars :: "char list" where
  "reserved_chars =
     [CHR ''<'', CHR ''>'', CHR '':'', CHR 0x22, CHR ''/'', CHR 0x5C, CHR ''|'', CHR ''?'', CHR ''*'']"

definition re_sub_reserved :: "string \<Rightarrow> string" where
  "re_sub_reserved name = map (\<lambda>c. if c \<in> set reserved_chars then CHR ''_'' else c) name"

definition strip :: "char list \<Rightarrow> string \<Rightarrow> string" where
  "strip cs s = rev (dropWhile (\<lambda>c. c \<in> set cs) (rev (dropWhile (\<lambda>c. c \<in> set cs) s)))"

definition sanitize_filename :: "string \<Rightarrow> string" where
  "sanitize_filename name =
     (let sanitized = re_sub_reserved name;
          sanitized = strip [CHR '' '', CHR ''.''] sanitized;
          sanitized = (if length sanitized > 100 then take 100 sanitized else sanitized)
      in if sanitized = [] then ''unknown'' else sanitized)"

text \<open>
  A \<^verbatim>\<open>datetime\<close> value, and \<^verbatim>\<open>strftime('%Y%m%d_%H%M%S')\<close> on it: every field is
  printed in decimal and padded with zeros on the left to its width (4 for the year, 2
  for the others). For a year below 1000 some platforms do not pad \<^verbatim>\<open>%Y\<close>; the
  statements below are about years of four digits, where all agree.
\<close>

record datetime =
  year :: nat
  month :: nat
  day :: nat
  hour :: nat
  minute :: nat
  second :: nat

definition digit_char :: "nat \<Rightarrow> char" where
  "digit_char d = ''0123456789'' ! (d mod 10)"

fun str_nat :: "nat \<Rightarrow> string" where
  "str_nat n = (if n < 10 then [digit_char n] else str_nat (n div 10) @ [digit_char (n mod 10)])"

declare str_nat.simps [simp del]

definition zfill :: "nat \<Rightarrow> string \<Rightarrow> string" where
  "zfill w s = replicate (w - length s) CHR ''0'' @ s"

definition strftime_date :: "datetime \<Rightarrow> string" where
  "strftime_date t = zfill 4 (str_nat (year t)) @ zfill 2 (str_nat (month t)) @ zfill 2 (str_nat (day t))"

definition strftime_time :: "datetime \<Rightarrow> string" where
  "strftime_time t = zfill 2 (str_nat (hour t)) @ zfill 2 (str_nat (minute t)) @ zfill 2 (str_nat (second t))"

definition strftime :: "datetime \<Rightarrow> string" where
  "strftime t = strftime_date t @ ''_'' @ strftime_time t"

text \<open>
  \<^verbatim>\<open>generate_filename(channel_name, extension)\<close>; the reading of the clock
  (\<^verbatim>\<open>datetime.now()\<close>) is the argument \<open>now\<close>.
\<close>

definition generate_filename :: "datetime \<Rightarrow> string \<Rightarrow> string \<Rightarrow> string" where
  "generate_filename now channel_name extension =
     (let timestamp = strftime now;
          safe_name = sanitize_filename channel_name
      in safe_name @ ''_'' @ timestamp @ ''.'' @ extension)"

text \<open>What \<^verbatim>\<open>datetime\<close> guarantees of its fields, with a year of four digits.\<close>

definition valid_datetime :: "datetime \<Rightarrow> bool" where
  "valid_datetime t \<longleftrightarrow>
     1000 \<le> year t \<and> year t \<le> 9999 \<and> 1 \<le> month t \<and> month t \<le> 12 \<and>
     1 \<le> day t \<and> day t \<le> 31 \<and> hour t < 24 \<and> minute t < 60 \<and> second t < 60"

definition is_digit :: "char \<Rightarrow> bool" where
  "is_digit c \<longleftrightarrow> c \<in> set ''0123456789''"


definition str_int :: "int \<Rightarrow> string" where
  "str_int i = (if i < 0 then ''-'' @ str_nat (nat (- i)) else str_nat (nat i))"


section \<open>Exceptions\<close>

text \<open>
  The exception classes raised or caught in the modelled code, each with its message.
  Every value stands for an instance of a subclass of \<^verbatim>\<open>Exception\<close>, so the
  handlers \<^verbatim>\<open>except Exception\<close> catch all of them; asynchronous interrupts
  (\<^verbatim>\<open>KeyboardInterrupt\<close>, signals) are outside the model. \<open>RetryExhaustedError\<close>
  carries its \<^verbatim>\<open>last_exception\<close>.
\<close>

datatype exn =
    YouTubeError string
  | NotLiveError string
  | StreamUnavailableError string
  | InvalidURLError string
  | ChannelNotFoundError string
  | RecordingError string
  | RetryExhaustedError string "exn option"
  | TimeoutExpired string
  | JSONDecodeError string
  | FileNotFoundError string
  | OSError string
  | ConnectionError string
  | TimeoutError string
  | OverflowError string
  | ZeroDivisionError string
  | AttributeError string
  | OtherException string

text \<open>\<^verbatim>\<open>isinstance(e, YouTubeError)\<close>: the class and its four subclasses.\<close>

fun is_YouTubeError :: "exn \<Rightarrow> bool" where
  "is_YouTubeError (YouTubeError _) = True"
| "is_YouTubeError (NotLiveError _) = True"
| "is_YouTubeError (StreamUnavailableError _) = True"
| "is_YouTubeError (InvalidURLError _) = True"
| "is_YouTubeError (ChannelNotFoundError _) = True"
| "is_YouTubeError _ = False"

fun is_ChannelNotFoundError :: "exn \<Rightarrow> bool" where
  "is_ChannelNotFoundError (ChannelNotFoundError _) = True"
| "is_ChannelNotFoundError _ = False"

text \<open>\<^verbatim>\<open>isinstance(e, (ConnectionError, TimeoutError, OSError))\<close>.\<close>

fun is_OSError :: "exn \<Rightarrow> bool" where
  "is_OSError (OSError _) = True"
| "is_OSError (ConnectionError _) = True"
| "is_OSError (TimeoutError _) = True"
| "is_OSError (FileNotFoundError _) = True"
| "is_OSError _ = False"

text \<open>\<^verbatim>\<open>str(e)\<close>: the message.\<close>

fun str_exn :: "exn \<Rightarrow> string" where
  "str_exn (YouTubeError m) = m"
| "str_exn (NotLiveError m) = m"
| "str_exn (StreamUnavailableError m) = m"
| "str_exn (InvalidURLError m) = m"
| "str_exn (ChannelNotFoundError m) = m"
| "str_exn (RecordingError m) = m"
| "str_exn (RetryExhaustedError m _) = m"
| "str_exn (TimeoutExpired m) = m"
| "str_exn (JSONDecodeError m) = m"
| "str_exn (FileNotFoundError m) = m"
| "str_exn (OSError m) = m"
| "str_exn (ConnectionError m) = m"
| "str_exn (TimeoutError m) = m"
| "str_exn (OverflowError m) = m"
| "str_exn (ZeroDivisionError m) = m"
| "str_exn (AttributeError m) = m"
| "str_exn (OtherException m) = m"


section \<open>retry.py: backoff and the retry executor\<close>

record RetryConfig =
  max_attempts :: int
  base_delay :: real
  max_delay :: real
  exponential_base :: real
  jitter :: bool
  retryable_exceptions :: "exn \<Rightarrow> bool"

text \<open>The defaults of the dataclass, and the two predefined configurations.\<close>

definition default_RetryConfig :: RetryConfig where
  "default_RetryConfig =
     \<lparr>max_attempts = 3, base_delay = 1, max_delay = 30, exponential_base = 2, jitter = True,
      retryable_exceptions = (\<lambda>e. True)\<rparr>"

definition NETWORK_RETRY :: RetryConfig where
  "NETWORK_RETRY =
     \<lparr>max_attempts = 5, base_delay = 1, max_delay = 60, exponential_base = 2, jitter = True,
      retryable_exceptions = is_OSError\<rparr>"

definition YOUTUBE_RETRY :: RetryConfig where
  "YOUTUBE_RETRY =
     \<lparr>max_attempts = 3, base_delay = 2, max_delay = 30, exponential_base = 2, jitter = True,
      retryable_exceptions = (\<lambda>e. True)\<rparr>"

text \<open>
  Python floats are modelled as real numbers: rounding is not modelled. What is modelled
  of the float arithmetic is where it raises. \<^verbatim>\<open>x ** n\<close> on a float \<open>x\<close> and an
  int \<open>n\<close> first converts \<open>n\<close> to a float, and raises \<^verbatim>\<open>OverflowError\<close> when
  \<open>n\<close> is too large for that (also for \<^verbatim>\<open>1.0 ** n\<close>); it raises
  \<^verbatim>\<open>ZeroDivisionError\<close> for \<open>0.0\<close> to a negative power, and \<^verbatim>\<open>OverflowError\<close>
  when the result is not a finite double. A number is too large for a double when it
  rounds to infinity: from \<open>2^1024 - 2^970\<close> on in absolute value. (Float multiplication
  and addition do not raise.)
\<close>

definition float_overflow :: "real \<Rightarrow> bool" where
  "float_overflow v \<longleftrightarrow> 2 ^ 1024 - 2 ^ 970 \<le> \<bar>v\<bar>"

definition float_pow :: "real \<Rightarrow> int \<Rightarrow> exn + real" where
  "float_pow x n =
     (if float_overflow (real_of_int n) then Inl (OverflowError ''int too large to convert to float'')
      else if x = 0 \<and> n < 0 then Inl (ZeroDivisionError ''0.0 cannot be raised to a negative power'')
      else if float_overflow (power_int x n) then Inl (OverflowError ''Numerical result out of range'')
      else Inr (power_int x n))"

text \<open>
  \<^verbatim>\<open>random.uniform(a, b)\<close> is \<^verbatim>\<open>a + (b - a) * random()\<close>; the sample \<open>u\<close> of
  \<^verbatim>\<open>random()\<close>, a number of the interval from 0 to 1, is an argument.
\<close>

definition uniform :: "real \<Rightarrow> real \<Rightarrow> real \<Rightarrow> real" where
  "uniform u a b = a + (b - a) * u"

definition calculate_delay :: "real \<Rightarrow> int \<Rightarrow> RetryConfig \<Rightarrow> exn + real" where
  "calculate_delay u attempt config =
     (case float_pow (exponential_base config) attempt of
        Inl e \<Rightarrow> Inl e
      | Inr p \<Rightarrow>
          (let delay = base_delay config * p;
               delay = min delay (max_delay config);
               delay = (if jitter config
                        then (let jit = delay * 0.25 in delay + uniform u (- jit) jit)
                        else delay)
           in Inr (max 0 delay)))"

text \<open>
  What a run of the executor did besides returning: how often it invoked \<^verbatim>\<open>func\<close>,
  the calls of the observer \<^verbatim>\<open>on_retry\<close> and the delays it slept.
\<close>

record retry_trace =
  calls :: nat
  observed :: "(int \<times> exn \<times> real) list"
  slept :: "real list"

definition no_trace :: retry_trace where
  "no_trace = \<lparr>calls = 0, observed = [], slept = []\<rparr>"

text \<open>
  The loop \<^verbatim>\<open>for attempt in range(config.max_attempts)\<close> of \<^verbatim>\<open>retry_with_backoff\<close>,
  by recursion on the attempts still to come. \<open>func\<close> is the stream of the outcomes of
  the successive invocations of the operation, \<open>on_retry\<close> tells whether an observer was
  given, \<open>rnd\<close> is the stream of samples of \<^verbatim>\<open>random()\<close>. Leaving the loop, by
  \<^verbatim>\<open>break\<close> or at the end of the range, raises \<^verbatim>\<open>RetryExhaustedError\<close>. An exception of
  \<^verbatim>\<open>calculate_delay\<close> is raised inside the handler and leaves the function. The
  observer, which only logs in this program, and \<^verbatim>\<open>time.sleep\<close> are taken to return.
\<close>

fun retry_attempts ::
  "(exn + 'a) stream \<Rightarrow> RetryConfig \<Rightarrow> bool \<Rightarrow> real stream \<Rightarrow> int list \<Rightarrow> exn option \<Rightarrow>
     retry_trace \<Rightarrow> (exn + 'a) \<times> retry_trace" where
  "retry_attempts func config on_retry rnd [] last_exception tr =
     (Inl (RetryExhaustedError
             (''Function failed after '' @ str_int (max_attempts config) @ '' attempts'')
             last_exception), tr)"
| "retry_attempts func config on_retry rnd (attempt # rest) last_exception tr =
     (let tr = tr\<lparr>calls := Suc (calls tr)\<rparr> in
      case shd func of
        Inr v \<Rightarrow> (Inr v, tr)
      | Inl e \<Rightarrow>
          if retryable_exceptions config e then
            (if attempt < max_attempts config - 1 then
               (case calculate_delay (shd rnd) attempt config of
                  Inl e' \<Rightarrow> (Inl e', tr)
                | Inr delay \<Rightarrow>
                    retry_attempts (stl func) config on_retry
                      (if jitter config then stl rnd else rnd) rest (Some e)
                      (tr\<lparr>observed := observed tr @ (if on_retry then [(attempt + 1, e, delay)] else []),
                          slept := slept tr @ [delay]\<rparr>))
             else retry_attempts (stl func) config on_retry rnd [] (Some e) tr)
          else (Inl e, tr))"

definition retry_with_backoff ::
  "(exn + 'a) stream \<Rightarrow> RetryConfig option \<Rightarrow> bool \<Rightarrow> real stream \<Rightarrow> (exn + 'a) \<times> retry_trace" where
  "retry_with_backoff func config on_retry rnd =
     (let config = (case config of None \<Rightarrow> default_RetryConfig | Some c \<Rightarrow> c)
      in retry_attempts func config on_retry rnd [0..max_attempts config - 1] None no_trace)"



section \<open>youtube_api.py: liveness checks\<close>

record LiveStatus =
  is_live :: bool
  video_id :: "string option"
  title :: "string option"
  channel_name :: "string option"

text \<open>
  The fields that the code reads from the JSON document of yt-dlp, after
  \<^verbatim>\<open>json.loads\<close>. A key that is missing and a key whose value is \<^verbatim>\<open>null\<close> both
  read as \<open>None\<close>: for the three flags the code only tests truth
  (\<^verbatim>\<open>info.get('is_live', False)\<close>), and \<^verbatim>\<open>info.get('title')\<close> is \<^verbatim>\<open>None\<close> in
  both cases.
\<close>

record video_info =
  info_is_live :: "bool option"
  info_live_status :: "string option"
  info_was_live :: "bool option"
  info_id :: "string option"
  info_title :: "string option"
  info_channel :: "string option"

text \<open>
  What \<^verbatim>\<open>json.loads\<close> returns: a \<^verbatim>\<open>dict\<close>, with the fields above, for a JSON
  object, and a value of another type (a list, a string, a number, \<^verbatim>\<open>None\<close>) for any
  other JSON document. On such a value \<^verbatim>\<open>info.get\<close> raises \<^verbatim>\<open>AttributeError\<close>.
\<close>

datatype json_doc = JObject video_info | JOther

text \<open>The result of \<^verbatim>\<open>subprocess.run\<close> when it returns.\<close>

record CompletedProcess =
  returncode :: int
  stdout :: string
  stderr :: string

text \<open>
  The environment of the module: the outcome of each \<^verbatim>\<open>subprocess.run\<close> in turn, as a
  function of the command line (the call raises, as on a timeout or a missing program, or
  returns), the parser \<^verbatim>\<open>json.loads\<close>, and the samples of \<^verbatim>\<open>random()\<close>.
\<close>

record yt_world =
  yt_run :: "(string list \<Rightarrow> exn + CompletedProcess) stream"
  yt_json_loads :: "string \<Rightarrow> exn + json_doc"
  yt_random :: "real stream"

definition cookie_args :: "string option \<Rightarrow> string option \<Rightarrow> string list" where
  "cookie_args cookies_from_browser cookies_file =
     (case cookies_from_browser of
        None \<Rightarrow> [] | Some b \<Rightarrow> if b = [] then [] else [''--cookies-from-browser'', b]) @
     (case cookies_file of
        None \<Rightarrow> [] | Some f \<Rightarrow> if f = [] then [] else [''--cookies'', f])"

text \<open>\<^verbatim>\<open>_fetch_video_info\<close>, on the outcome \<open>run\<close> of its \<^verbatim>\<open>subprocess.run\<close>.\<close>

definition fetch_video_info ::
  "(string list \<Rightarrow> exn + CompletedProcess) \<Rightarrow> (string \<Rightarrow> exn + json_doc) \<Rightarrow>
     string \<Rightarrow> string option \<Rightarrow> string option \<Rightarrow> exn + json_doc" where
  "fetch_video_info run json_loads url cookies_from_browser cookies_file =
     (let cmd = [''yt-dlp'', ''--dump-json'', ''--no-download''] @
                cookie_args cookies_from_browser cookies_file @ [url]
      in case run cmd of
           Inl e \<Rightarrow> Inl e
         | Inr result \<Rightarrow>
             if returncode result \<noteq> 0 then Inl (YouTubeError (''yt-dlp failed: '' @ stderr result))
             else json_loads (stdout result))"

definition str_opt_exn :: "exn option \<Rightarrow> string" where
  "str_opt_exn e = (case e of None \<Rightarrow> ''None'' | Some e \<Rightarrow> str_exn e)"

text \<open>
  \<^verbatim>\<open>get_video_info\<close>: the fetch under \<^verbatim>\<open>retry_with_backoff\<close> with \<open>YOUTUBE_RETRY\<close>,
  its four handlers in the order of the source, any other exception passing through.
  The environment moves on by the invocations made and, the configuration having jitter,
  by one sample for each delay slept.
\<close>

definition get_video_info ::
  "string \<Rightarrow> string option \<Rightarrow> string option \<Rightarrow> yt_world \<Rightarrow> (exn + json_doc) \<times> yt_world" where
  "get_video_info url cookies_from_browser cookies_file w =
     (let (res, tr) = retry_with_backoff
                        (smap (\<lambda>run. fetch_video_info run (yt_json_loads w) url
                                        cookies_from_browser cookies_file) (yt_run w))
                        (Some YOUTUBE_RETRY) True (yt_random w);
          w = w\<lparr>yt_run := sdrop (calls tr) (yt_run w),
                yt_random := sdrop (length (slept tr)) (yt_random w)\<rparr>
      in case res of
           Inr info \<Rightarrow> (Inr info, w)
         | Inl (RetryExhaustedError m last_exception) \<Rightarrow>
             (Inl (YouTubeError (''Failed to fetch video info after retries: '' @
                                   str_opt_exn last_exception)), w)
         | Inl (TimeoutExpired m) \<Rightarrow> (Inl (YouTubeError ''Timeout while fetching video info''), w)
         | Inl (JSONDecodeError m) \<Rightarrow> (Inl (YouTubeError (''Failed to parse video info: '' @ m)), w)
         | Inl (FileNotFoundError m) \<Rightarrow>
             (Inl (YouTubeError ''yt-dlp not found. Please install yt-dlp.''), w)
         | Inl e \<Rightarrow> (Inl e, w))"

definition truthy :: "bool option \<Rightarrow> bool" where
  "truthy b = (case b of None \<Rightarrow> False | Some b \<Rightarrow> b)"

text \<open>
  \<^verbatim>\<open>check_live_status\<close>: the handler \<^verbatim>\<open>except YouTubeError\<close> covers the whole
  body; the \<^verbatim>\<open>AttributeError\<close> of \<^verbatim>\<open>info.get\<close> on a document that is no object
  passes it.
\<close>

definition no_get :: exn where
  "no_get = AttributeError ''object has no attribute get''"

definition check_live_status ::
  "string \<Rightarrow> string option \<Rightarrow> string option \<Rightarrow> yt_world \<Rightarrow> (exn + LiveStatus) \<times> yt_world" where
  "check_live_status vid cookies_from_browser cookies_file w =
     (let url = ''https://www.youtube.com/watch?v='' @ vid
      in case get_video_info url cookies_from_browser cookies_file w of
           (Inr JOther, w) \<Rightarrow> (Inl no_get, w)
         | (Inr (JObject info), w) \<Rightarrow>
             (let is_live = truthy (info_is_live info);
                  live_status = (case info_live_status info of None \<Rightarrow> ''not_live'' | Some s \<Rightarrow> s)
              in (Inr \<lparr>is_live = (is_live \<or> live_status = ''is_live''),
                       video_id = Some vid,
                       title = info_title info,
                       channel_name = info_channel info\<rparr>, w))
         | (Inl e, w) \<Rightarrow>
             if is_YouTubeError e
             then (Inr \<lparr>is_live = False, video_id = None, title = None, channel_name = None\<rparr>, w)
             else (Inl e, w))"

text \<open>\<^verbatim>\<open>str.lower\<close> on the letters A to Z, and the test \<^verbatim>\<open>msg in error_msg\<close>.\<close>

definition lower_char :: "char \<Rightarrow> char" where
  "lower_char c =
     (case map_of (zip ''ABCDEFGHIJKLMNOPQRSTUVWXYZ'' ''abcdefghijklmnopqrstuvwxyz'') c of
        None \<Rightarrow> c
      | Some l \<Rightarrow> l)"

definition lower :: "string \<Rightarrow> string" where
  "lower s = map lower_char s"

fun contains :: "string \<Rightarrow> string \<Rightarrow> bool" where
  "contains [] sub = (sub = [])"
| "contains (c # s) sub = (take (length sub) (c # s) = sub \<or> contains s sub)"

text \<open>
  \<^verbatim>\<open>get_channel_live_status\<close>: the handler covers the fetch only and raises again,
  either \<^verbatim>\<open>ChannelNotFoundError\<close> or the exception it caught. The reads of
  \<^verbatim>\<open>info\<close> come after it.
\<close>

definition get_channel_live_status ::
  "string \<Rightarrow> string option \<Rightarrow> string option \<Rightarrow> yt_world \<Rightarrow> (exn + LiveStatus) \<times> yt_world" where
  "get_channel_live_status cid cookies_from_browser cookies_file w =
     (if cid = [] then (Inl (YouTubeError ''Invalid channel_id: must be a non-empty string''), w)
      else
        let url = ''https://www.youtube.com/channel/'' @ cid @ ''/live''
        in case get_video_info url cookies_from_browser cookies_file w of
             (Inl e, w) \<Rightarrow>
               if is_YouTubeError e then
                 (let error_msg = lower (str_exn e)
                  in if list_ex (contains error_msg)
                          [''not found'', ''unavailable'', ''does not exist'', ''removed'']
                     then (Inl (ChannelNotFoundError (''Channel not found: '' @ cid)), w)
                     else (Inl e, w))
               else (Inl e, w)
           | (Inr JOther, w) \<Rightarrow> (Inl no_get, w)
           | (Inr (JObject info), w) \<Rightarrow>
               (let is_live = truthy (info_is_live info);
                    live_status = (case info_live_status info of None \<Rightarrow> ''not_live'' | Some s \<Rightarrow> s);
                    was_live = truthy (info_was_live info);
                    actually_live = (is_live \<and> live_status = ''is_live'' \<and> \<not> was_live)
                in (Inr \<lparr>is_live = actually_live,
                         video_id = (if actually_live then info_id info else None),
                         title = (if actually_live then info_title info else None),
                         channel_name = info_channel info\<rparr>, w)))"



section \<open>recorder.py: the recording session and the reconnect loop\<close>

text \<open>
  The capture process behind a \<^verbatim>\<open>subprocess.Popen\<close> handle. \<open>polls_alive\<close> tells how
  the process will answer \<^verbatim>\<open>poll()\<close>: \<open>Some n\<close> when it is found running \<open>n\<close> more
  times and exited from then on, \<open>None\<close> when it never exits by itself.
\<close>

datatype process = Process (pid: nat) (polls_alive: "nat option")

fun poll :: "process \<Rightarrow> bool \<times> process" where
  "poll (Process i None) = (True, Process i None)"
| "poll (Process i (Some 0)) = (False, Process i (Some 0))"
| "poll (Process i (Some (Suc n))) = (True, Process i (Some n))"

text \<open>
  The fields of \<^verbatim>\<open>StreamRecorder\<close>; a private field \<^verbatim>\<open>_x\<close> is \<open>p_x\<close>. The logger and
  the lock are left out. The reader threads are kept by their names.
\<close>

record StreamRecorder =
  output_dir :: string
  quality :: string
  cookies_from_browser :: "string option"
  cookies_file :: "string option"
  p_process :: "process option"
  p_start_time :: "datetime option"
  p_current_file :: "string option"
  p_temp_file :: "string option"
  p_stop_event :: bool
  p_channel_name :: "string option"
  p_stream_url :: "string option"
  p_reconnect_count :: int
  p_max_reconnects :: int
  p_recording_parts :: "string list"
  p_output_threads :: "string list"

text \<open>The state after \<^verbatim>\<open>__init__\<close>, when \<^verbatim>\<open>ensure_directory\<close> has not raised.\<close>

definition new_StreamRecorder ::
  "string \<Rightarrow> string \<Rightarrow> string option \<Rightarrow> string option \<Rightarrow> StreamRecorder" where
  "new_StreamRecorder dir q browser file =
     \<lparr>output_dir = dir, quality = q, cookies_from_browser = browser, cookies_file = file,
      p_process = None, p_start_time = None, p_current_file = None, p_temp_file = None,
      p_stop_event = False, p_channel_name = None, p_stream_url = None,
      p_reconnect_count = 0, p_max_reconnects = 5, p_recording_parts = [],
      p_output_threads = []\<rparr>"

text \<open>
  What the recorder does to the processes of the operating system, a process being named
  by its pid: \<open>Launch cmd i\<close> is a call of \<^verbatim>\<open>subprocess.Popen\<close> on the command line
  \<open>cmd\<close> that returned the handle of the process \<open>i\<close>, and \<open>Terminate i\<close> is the call of
  \<^verbatim>\<open>terminate()\<close> on that handle.
\<close>

datatype os_event = Launch "string list" nat | Terminate nat

text \<open>
  The operating system as the recorder meets it. Five fields are the streams of the
  answers to come: the readings of \<^verbatim>\<open>datetime.now()\<close>; the free bytes that
  \<^verbatim>\<open>shutil.disk_usage\<close> reports, or its exception; the outcome of
  \<^verbatim>\<open>subprocess.Popen\<close> on a command line; whether the temporary file exists when
  \<^verbatim>\<open>stop_recording\<close> looks; whether creating the directory and renaming the file raise.
  The last field is what has been done to it so far: the launches and terminations of
  processes, in their order.
\<close>

record os_world =
  os_clock :: "datetime stream"
  os_disk_usage :: "(exn + nat) stream"
  os_popen :: "(string list \<Rightarrow> exn + process) stream"
  os_exists :: "bool stream"
  os_rename :: "exn option stream"
  os_events :: "os_event list"

definition check_disk_space :: "nat \<Rightarrow> os_world \<Rightarrow> bool \<times> os_world" where
  "check_disk_space required_mb w =
     (let w' = w\<lparr>os_disk_usage := stl (os_disk_usage w)\<rparr>
      in case shd (os_disk_usage w) of
           Inr free \<Rightarrow>
             (let available_mb = free div (1024 * 1024)
              in if available_mb < required_mb then (False, w') else (True, w'))
         | Inl e \<Rightarrow> (True, w'))"

definition get_format_selector :: "StreamRecorder \<Rightarrow> string" where
  "get_format_selector r =
     (if quality r = ''best'' then ''best''
      else case map_of [(''1080p'', ''best[height<=1080]''), (''720p'', ''best[height<=720]''),
                        (''480p'', ''best[height<=480]''), (''360p'', ''best[height<=360]'')]
                  (quality r) of
             None \<Rightarrow> ''best'' | Some f \<Rightarrow> f)"

text \<open>
  \<^verbatim>\<open>self.output_dir / filename\<close>, as the directory, a slash and the file name; that
  \<^verbatim>\<open>pathlib\<close> also normalises the directory (\<^verbatim>\<open>./recordings\<close> becomes
  \<^verbatim>\<open>recordings\<close>) is not modelled.
\<close>

definition path_join :: "string \<Rightarrow> string \<Rightarrow> string" where
  "path_join dir file = dir @ ''/'' @ file"

text \<open>
  \<^verbatim>\<open>start_recording\<close>. It returns the path of the output file or the
  \<^verbatim>\<open>RecordingError\<close> it raises, with the recorder and the environment as the call
  leaves them. The parameter \<^verbatim>\<open>duration\<close> is not used by the source.
\<close>

definition start_recording ::
  "string \<Rightarrow> string \<Rightarrow> os_world \<Rightarrow> StreamRecorder \<Rightarrow> (exn + string) \<times> StreamRecorder \<times> os_world" where
  "start_recording stream_url chan_name w r =
     (if p_process r \<noteq> None then (Inl (RecordingError ''Already recording''), r, w)
      else
        case check_disk_space 500 w of
          (False, w) \<Rightarrow> (Inl (RecordingError ''Insufficient disk space for recording''), r, w)
        | (True, w) \<Rightarrow>
            (let r = r\<lparr>p_stream_url := Some stream_url, p_channel_name := Some chan_name\<rparr>;
                 filename = generate_filename (shd (os_clock w)) chan_name ''mp4'';
                 w = w\<lparr>os_clock := stl (os_clock w)\<rparr>;
                 current_file = path_join (output_dir r) filename;
                 temp_file = path_join (output_dir r) (''.'' @ filename @ ''.tmp'');
                 r = r\<lparr>p_current_file := Some current_file, p_temp_file := Some temp_file\<rparr>;
                 cmd = [''yt-dlp'', ''-f'', get_format_selector r, ''--no-part'', ''--no-continue'',
                        ''--newline'', ''-o'', temp_file] @
                       cookie_args (cookies_from_browser r) (cookies_file r) @ [stream_url];
                 launched = shd (os_popen w) cmd;
                 w = w\<lparr>os_popen := stl (os_popen w)\<rparr>
             in case launched of
                  Inl e \<Rightarrow>
                    (Inl (RecordingError (''Failed to start recording: '' @ str_exn e)), r, w)
                | Inr proc \<Rightarrow>
                    (Inr current_file,
                     r\<lparr>p_process := Some proc, p_start_time := Some (shd (os_clock w)),
                       p_output_threads := [''stdout-reader'', ''stderr-reader'']\<rparr>,
                     w\<lparr>os_clock := stl (os_clock w),
                       os_events := os_events w @ [Launch cmd (pid proc)]\<rparr>)))"


text \<open>
  \<^verbatim>\<open>get_recording_duration\<close> reads the clock when a start time is set. Its value, a
  number of seconds, only goes into a log line; the model keeps the reading of the clock.
\<close>

definition get_recording_duration :: "os_world \<Rightarrow> StreamRecorder \<Rightarrow> os_world" where
  "get_recording_duration w r =
     (if p_start_time r = None then w else w\<lparr>os_clock := stl (os_clock w)\<rparr>)"

text \<open>
  \<^verbatim>\<open>stop_recording\<close>. With a process owned it calls \<^verbatim>\<open>terminate()\<close> on the
  handle. However \<^verbatim>\<open>terminate\<close>, \<^verbatim>\<open>wait\<close> and \<^verbatim>\<open>kill\<close> end (in time, by a timeout,
  by another exception), the handlers only log and the code goes on to clear the handle;
  the threads are joined and dropped. The result is the path the call returns.
\<close>

definition stop_recording ::
  "os_world \<Rightarrow> StreamRecorder \<Rightarrow> string option \<times> StreamRecorder \<times> os_world" where
  "stop_recording w r =
     (case p_process r of
        None \<Rightarrow> (None, r, w)
      | Some proc \<Rightarrow>
          (let w = w\<lparr>os_events := os_events w @ [Terminate (pid proc)]\<rparr>;
               r = r\<lparr>p_process := None, p_stop_event := True, p_output_threads := []\<rparr>
           in case p_temp_file r of
                None \<Rightarrow> (None, r, w)
              | Some temp_file \<Rightarrow>
                  (let found = shd (os_exists w);
                       w = w\<lparr>os_exists := stl (os_exists w)\<rparr>
                   in if found then
                        (let renamed = shd (os_rename w);
                             w = w\<lparr>os_rename := stl (os_rename w)\<rparr>
                         in case renamed of
                              None \<Rightarrow> (p_current_file r, r, get_recording_duration w r)
                            | Some e \<Rightarrow> (Some temp_file, r, w))
                      else (None, r, w))))"

text \<open>\<^verbatim>\<open>is_recording\<close>: a probe of the process, which the probe may find exited.\<close>

definition is_recording :: "StreamRecorder \<Rightarrow> bool \<times> StreamRecorder" where
  "is_recording r =
     (case p_process r of
        None \<Rightarrow> (False, r)
      | Some proc \<Rightarrow> (case poll proc of (running, proc) \<Rightarrow> (running, r\<lparr>p_process := Some proc\<rparr>)))"

text \<open>
  The two callables given to \<^verbatim>\<open>record_with_reconnect\<close> are the streams of what their
  successive calls return or raise; with the operating system they are the environment of
  the loop.
\<close>

record rworld =
  rw_os :: os_world
  rw_get_stream_url :: "(exn + string) stream"
  rw_check_is_live :: "(exn + bool) stream"

text \<open>
  The inner loop \<^verbatim>\<open>while self.is_recording(): time.sleep(1); if not check_is_live(): break\<close>.
  It need not end (a process that keeps running on a source that stays live), so it is
  a partial function: \<open>None\<close> is the loop that runs forever. The result holds the
  exception that \<^verbatim>\<open>check_is_live\<close> raised, if it did.
\<close>

partial_function (option) monitor_recording ::
  "StreamRecorder \<Rightarrow> rworld \<Rightarrow> (exn option \<times> StreamRecorder \<times> rworld) option" where
  "monitor_recording r w =
     (case is_recording r of
        (running, r) \<Rightarrow>
          if running then
            (case shd (rw_check_is_live w) of
               Inl e \<Rightarrow> Some (Some e, r, w\<lparr>rw_check_is_live := stl (rw_check_is_live w)\<rparr>)
             | Inr live \<Rightarrow>
                 if \<not> live then Some (None, r, w\<lparr>rw_check_is_live := stl (rw_check_is_live w)\<rparr>)
                 else monitor_recording r (w\<lparr>rw_check_is_live := stl (rw_check_is_live w)\<rparr>))
          else Some (None, r, w))"

text \<open>
  The first statement of the \<^verbatim>\<open>try\<close> block: start on the given URL in the first
  iteration, on a fresh URL and under the name \<^verbatim>\<open>{channel_name}_reconnect{n}\<close> later.
\<close>

definition start_segment ::
  "string \<Rightarrow> string \<Rightarrow> StreamRecorder \<Rightarrow> rworld \<Rightarrow> exn option \<times> StreamRecorder \<times> rworld" where
  "start_segment stream_url chan_name r w =
     (if p_reconnect_count r = 0 then
        (case start_recording stream_url chan_name (rw_os w) r of
           (Inl e, r, os) \<Rightarrow> (Some e, r, w\<lparr>rw_os := os\<rparr>)
         | (Inr f, r, os) \<Rightarrow> (None, r, w\<lparr>rw_os := os\<rparr>))
      else
        (let fresh = shd (rw_get_stream_url w);
             w = w\<lparr>rw_get_stream_url := stl (rw_get_stream_url w)\<rparr>
         in case fresh of
              Inl e \<Rightarrow> (Some e, r, w)
            | Inr fresh_url \<Rightarrow>
                (case start_recording fresh_url
                        (chan_name @ ''_reconnect'' @ str_int (p_reconnect_count r)) (rw_os w) r of
                   (Inl e, r, os) \<Rightarrow> (Some e, r, w\<lparr>rw_os := os\<rparr>)
                 | (Inr f, r, os) \<Rightarrow> (None, r, w\<lparr>rw_os := os\<rparr>))))"

text \<open>
  The rest of the \<^verbatim>\<open>try\<close> block, after the inner loop: stop the segment, append its
  file \<^verbatim>\<open>if part_file\<close>, ask whether the source is still live. The result is
  \<open>Inr True\<close> for \<^verbatim>\<open>continue\<close> (the counter has been incremented), \<open>Inr False\<close> for
  \<^verbatim>\<open>break\<close>, \<open>Inl e\<close> when \<^verbatim>\<open>check_is_live\<close> raised \<open>e\<close>.
\<close>

definition finish_segment ::
  "int \<Rightarrow> StreamRecorder \<Rightarrow> rworld \<Rightarrow> (exn + bool) \<times> StreamRecorder \<times> rworld" where
  "finish_segment max_reconnects r w =
     (case stop_recording (rw_os w) r of
        (part_file, r, os) \<Rightarrow>
          (let w = w\<lparr>rw_os := os\<rparr>;
               r = (case part_file of
                      None \<Rightarrow> r
                    | Some f \<Rightarrow> r\<lparr>p_recording_parts := p_recording_parts r @ [f]\<rparr>);
               live = shd (rw_check_is_live w);
               w = w\<lparr>rw_check_is_live := stl (rw_check_is_live w)\<rparr>
           in case live of
                Inl e \<Rightarrow> (Inl e, r, w)
              | Inr live \<Rightarrow>
                  if live \<and> p_reconnect_count r < max_reconnects
                  then (Inr True, r\<lparr>p_reconnect_count := p_reconnect_count r + 1\<rparr>, w)
                  else (Inr False, r, w)))"

text \<open>The \<^verbatim>\<open>try\<close> block as a whole.\<close>

definition try_segment ::
  "string \<Rightarrow> string \<Rightarrow> int \<Rightarrow> StreamRecorder \<Rightarrow> rworld \<Rightarrow>
     ((exn + bool) \<times> StreamRecorder \<times> rworld) option" where
  "try_segment stream_url chan_name max_reconnects r w =
     (case start_segment stream_url chan_name r w of
        (Some e, r, w) \<Rightarrow> Some (Inl e, r, w)
      | (None, r, w) \<Rightarrow>
          (case monitor_recording r w of
             None \<Rightarrow> None
           | Some (Some e, r, w) \<Rightarrow> Some (Inl e, r, w)
           | Some (None, r, w) \<Rightarrow> Some (finish_segment max_reconnects r w)))"

text \<open>
  The handler \<^verbatim>\<open>except Exception\<close>: stop, dropping the path, then count the attempt
  and go on (\<open>True\<close>) or \<^verbatim>\<open>break\<close> (\<open>False\<close>).
\<close>

definition on_error :: "int \<Rightarrow> StreamRecorder \<Rightarrow> rworld \<Rightarrow> bool \<times> StreamRecorder \<times> rworld" where
  "on_error max_reconnects r w =
     (case stop_recording (rw_os w) r of
        (part_file, r, os) \<Rightarrow>
          if p_reconnect_count r < max_reconnects
          then (True, r\<lparr>p_reconnect_count := p_reconnect_count r + 1\<rparr>, w\<lparr>rw_os := os\<rparr>)
          else (False, r, w\<lparr>rw_os := os\<rparr>))"

text \<open>
  The loop \<^verbatim>\<open>while self._reconnect_count <= max_reconnects\<close>. It is partial because the
  inner loop is.
\<close>

partial_function (option) reconnect_loop ::
  "string \<Rightarrow> string \<Rightarrow> int \<Rightarrow> StreamRecorder \<Rightarrow> rworld \<Rightarrow> (StreamRecorder \<times> rworld) option" where
  "reconnect_loop stream_url chan_name max_reconnects r w =
     (if p_reconnect_count r \<le> max_reconnects then
        (case try_segment stream_url chan_name max_reconnects r w of
           None \<Rightarrow> None
         | Some (Inr again, r, w) \<Rightarrow>
             if again then reconnect_loop stream_url chan_name max_reconnects r w
             else Some (r, w)
         | Some (Inl e, r, w) \<Rightarrow>
             (case on_error max_reconnects r w of
                (again, r, w) \<Rightarrow>
                  if again then reconnect_loop stream_url chan_name max_reconnects r w
                  else Some (r, w)))
      else Some (r, w))"

text \<open>\<^verbatim>\<open>record_with_reconnect\<close>: the list of parts, with the recorder and the environment.\<close>

definition record_with_reconnect ::
  "string \<Rightarrow> string \<Rightarrow> int \<Rightarrow> StreamRecorder \<Rightarrow> rworld \<Rightarrow>
     (string list \<times> StreamRecorder \<times> rworld) option" where
  "record_with_reconnect stream_url chan_name max_reconnects r w =
     (let r = r\<lparr>p_max_reconnects := max_reconnects, p_recording_parts := [],
                p_reconnect_count := 0\<rparr>
      in case reconnect_loop stream_url chan_name max_reconnects r w of
           None \<Rightarrow> None
         | Some (r, w) \<Rightarrow> Some (p_recording_parts r, r, w))"



section \<open>monitor.py: the state machine of one source\<close>

record ChannelConfig =
  cfg_name :: string
  cfg_channel_id :: string

record Settings =
  set_output_dir :: string
  set_quality :: string
  set_format :: string
  set_interval :: int

text \<open>
  What the methods read of the \<^verbatim>\<open>ChannelMonitor\<close> itself. Its dictionary
  \<^verbatim>\<open>_states\<close> holds one \<^verbatim>\<open>ChannelState\<close> for each configured channel, and every
  method below works on the entry \<^verbatim>\<open>self._states[channel_id]\<close> of its channel alone:
  that entry is the state the functions take and return.
\<close>

record ChannelMonitor =
  mon_settings :: Settings
  mon_cookies_from_browser :: "string option"
  mon_cookies_file :: "string option"

record ChannelState =
  cs_config :: ChannelConfig
  cs_is_live :: bool
  cs_is_recording :: bool
  cs_current_video_id :: "string option"
  cs_current_title :: "string option"
  cs_recorder :: "StreamRecorder option"
  cs_last_check :: "datetime option"
  cs_last_error :: "string option"
  cs_recording_start_time :: "datetime option"

text \<open>\<^verbatim>\<open>ChannelState(config=ch)\<close>, as \<^verbatim>\<open>__init__\<close> creates it.\<close>

definition initial_state :: "ChannelConfig \<Rightarrow> ChannelState" where
  "initial_state ch =
     \<lparr>cs_config = ch, cs_is_live = False, cs_is_recording = False, cs_current_video_id = None,
      cs_current_title = None, cs_recorder = None, cs_last_check = None, cs_last_error = None,
      cs_recording_start_time = None\<rparr>"

text \<open>
  The environment of the monitor: the operating system of the recorders; what the
  successive calls of \<^verbatim>\<open>get_channel_live_status\<close> return or raise; what the
  successive calls of \<^verbatim>\<open>get_stream_url\<close> return or raise, as a function of the video
  id and the quality they are given; and whether \<^verbatim>\<open>ensure_directory\<close> raises in the
  constructor of a recorder.
\<close>

record mworld =
  mw_os :: os_world
  mw_channel_live_status :: "(exn + LiveStatus) stream"
  mw_get_stream_url :: "(string option \<Rightarrow> string \<Rightarrow> exn + string) stream"
  mw_ensure_directory :: "exn option stream"

text \<open>The handler of \<^verbatim>\<open>_start_recording\<close>.\<close>

definition start_failed :: "exn \<Rightarrow> ChannelState \<Rightarrow> ChannelState" where
  "start_failed e state = state\<lparr>cs_is_recording := False, cs_last_error := Some (str_exn e)\<rparr>"

text \<open>\<^verbatim>\<open>ChannelMonitor._start_recording\<close>.\<close>

definition monitor_start_recording ::
  "ChannelMonitor \<Rightarrow> LiveStatus \<Rightarrow> ChannelState \<Rightarrow> mworld \<Rightarrow> ChannelState \<times> mworld" where
  "monitor_start_recording m status state w =
     (let fetched = shd (mw_get_stream_url w) (video_id status) (set_quality (mon_settings m));
          w = w\<lparr>mw_get_stream_url := stl (mw_get_stream_url w)\<rparr>
      in case fetched of
           Inl e \<Rightarrow> (start_failed e state, w)
         | Inr stream_url \<Rightarrow>
             (let made = shd (mw_ensure_directory w);
                  w = w\<lparr>mw_ensure_directory := stl (mw_ensure_directory w)\<rparr>
              in case made of
                   Some e \<Rightarrow> (start_failed e state, w)
                 | None \<Rightarrow>
                     (let recorder = new_StreamRecorder (set_output_dir (mon_settings m))
                                       (set_quality (mon_settings m))
                                       (mon_cookies_from_browser m) (mon_cookies_file m)
                      in case start_recording stream_url (cfg_name (cs_config state))
                                (mw_os w) recorder of
                           (Inl e, recorder, os) \<Rightarrow> (start_failed e state, w\<lparr>mw_os := os\<rparr>)
                         | (Inr output_file, recorder, os) \<Rightarrow>
                             (state\<lparr>cs_recorder := Some recorder,
                                    cs_is_recording := True,
                                    cs_current_video_id := video_id status,
                                    cs_current_title := title status,
                                    cs_recording_start_time := Some (shd (os_clock os))\<rparr>,
                              w\<lparr>mw_os := os\<lparr>os_clock := stl (os_clock os)\<rparr>\<rparr>))))"

text \<open>
  \<^verbatim>\<open>ChannelMonitor._stop_recording\<close>, in its two parts. First it reads the recorder
  and the flag and, if there is a recorder and the flag is set, calls
  \<^verbatim>\<open>recorder.stop_recording()\<close>: the recorder that the state refers to is the object
  that loses its handle. Then, in a second critical section, it clears the fields of the
  state. Between the two the state is visible to the other threads.
\<close>

definition stop_session :: "ChannelState \<Rightarrow> mworld \<Rightarrow> ChannelState \<times> mworld" where
  "stop_session state w =
     (case cs_recorder state of
        None \<Rightarrow> (state, w)
      | Some recorder \<Rightarrow>
          if cs_is_recording state then
            (case stop_recording (mw_os w) recorder of
               (output_file, recorder, os) \<Rightarrow>
                 (state\<lparr>cs_recorder := Some recorder\<rparr>, w\<lparr>mw_os := os\<rparr>))
          else (state, w))"

definition clear_session :: "ChannelState \<Rightarrow> ChannelState" where
  "clear_session state =
     state\<lparr>cs_recorder := None, cs_is_recording := False, cs_current_video_id := None,
           cs_current_title := None, cs_recording_start_time := None\<rparr>"

definition monitor_stop_recording :: "ChannelState \<Rightarrow> mworld \<Rightarrow> ChannelState \<times> mworld" where
  "monitor_stop_recording state w =
     (case stop_session state w of (state, w) \<Rightarrow> (clear_session state, w))"

text \<open>
  \<^verbatim>\<open>ChannelMonitor._check_channel\<close>, one poll of one source. The first component of the
  result is the exception that leaves the method: one that \<^verbatim>\<open>get_channel_live_status\<close>
  raised and that is no \<^verbatim>\<open>YouTubeError\<close>.
\<close>

definition check_channel ::
  "ChannelMonitor \<Rightarrow> ChannelState \<Rightarrow> mworld \<Rightarrow> exn option \<times> ChannelState \<times> mworld" where
  "check_channel m state w =
     (let polled = shd (mw_channel_live_status w);
          w = w\<lparr>mw_channel_live_status := stl (mw_channel_live_status w)\<rparr>
      in case polled of
           Inr status \<Rightarrow>
             (let state = state\<lparr>cs_last_check := Some (shd (os_clock (mw_os w))),
                                cs_last_error := None\<rparr>;
                  w = w\<lparr>mw_os := (mw_os w)\<lparr>os_clock := stl (os_clock (mw_os w))\<rparr>\<rparr>;
                  was_live = cs_is_live state;
                  current_video = cs_current_video_id state;
                  (state, w) =
                    (if is_live status \<and> \<not> was_live then monitor_start_recording m status state w
                     else if \<not> is_live status \<and> was_live then monitor_stop_recording state w
                     else if is_live status \<and> was_live then
                       (if video_id status \<noteq> current_video then
                          (case monitor_stop_recording state w of
                             (state, w) \<Rightarrow> monitor_start_recording m status state w)
                        else (state, w))
                     else (state, w))
              in (None, state\<lparr>cs_is_live := is_live status\<rparr>, w))
         | Inl e \<Rightarrow>
             if is_ChannelNotFoundError e then (None, state\<lparr>cs_last_error := Some (str_exn e)\<rparr>, w)
             else if is_YouTubeError e then (None, state\<lparr>cs_last_error := Some (str_exn e)\<rparr>, w)
             else (Some e, state, w))"

text \<open>
  What can happen to the state of one source, each taken as a whole: a poll by its
  thread (the loop of \<^verbatim>\<open>_monitor_channel\<close> catches what \<^verbatim>\<open>_check_channel\<close> raises
  and polls again); \<^verbatim>\<open>ChannelMonitor.stop\<close>, which calls \<^verbatim>\<open>_stop_recording\<close> for
  the channel; and the capture process of its recorder exiting by itself. A run of such
  events gives the states of the source between the calls. The states inside a call, and
  the interleaving of the polling thread with the thread of \<^verbatim>\<open>stop\<close>, are not part
  of \<open>run\<close>; the state inside \<^verbatim>\<open>_stop_recording\<close> is the one \<open>stop_session\<close> returns.
\<close>

datatype event = Poll | CoordinatorStop | ProcessExit

definition process_exits :: "ChannelState \<Rightarrow> ChannelState" where
  "process_exits state =
     state\<lparr>cs_recorder :=
              map_option (\<lambda>r. r\<lparr>p_process := map_option (\<lambda>p. Process (pid p) (Some 0)) (p_process r)\<rparr>)
                (cs_recorder state)\<rparr>"

fun step :: "ChannelMonitor \<Rightarrow> ChannelState \<times> mworld \<Rightarrow> event \<Rightarrow> ChannelState \<times> mworld" where
  "step m (state, w) Poll = snd (check_channel m state w)"
| "step m (state, w) CoordinatorStop = monitor_stop_recording state w"
| "step m (state, w) ProcessExit = (process_exits state, w)"

definition run :: "ChannelMonitor \<Rightarrow> event list \<Rightarrow> ChannelState \<times> mworld \<Rightarrow> ChannelState \<times> mworld" where
  "run m events sw = foldl (step m) sw events"

text \<open>
  \<^verbatim>\<open>recorder.is_recording()\<close> on the recorder of the source: it owns a handle and the
  process has not exited.
\<close>

definition owns_live_process :: "ChannelState \<Rightarrow> bool" where
  "owns_live_process state =
     (case cs_recorder state of None \<Rightarrow> False | Some r \<Rightarrow> fst (is_recording r))"

text \<open>The recorder of the source owns a handle, whatever has become of the process.\<close>

definition owns_process :: "ChannelState \<Rightarrow> bool" where
  "owns_process state =
     (case cs_recorder state of None \<Rightarrow> False | Some r \<Rightarrow> p_process r \<noteq> None)"



section \<open>Predicates of the statements\<close>

text \<open>
  The relation between the flag and the recorder that holds in every state of a source:
  the flag is set exactly when the state holds a recorder that owns a process handle, and
  a source last seen offline holds no recorder.
\<close>

definition state_inv :: "ChannelState \<Rightarrow> bool" where
  "state_inv s \<longleftrightarrow>
     (cs_is_recording s \<longleftrightarrow> owns_process s) \<and> (\<not> cs_is_live s \<longrightarrow> cs_recorder s = None)"

text \<open>
  The next \<open>n\<close> calls of \<^verbatim>\<open>start_recording\<close> find the disk large enough, or not
  measurable, and get a process from \<^verbatim>\<open>Popen\<close>.
\<close>

definition disk_ok :: "exn + nat \<Rightarrow> bool" where
  "disk_ok d = (case d of Inl e \<Rightarrow> True | Inr free \<Rightarrow> \<not> free div (1024 * 1024) < 500)"

definition launches :: "nat \<Rightarrow> os_world \<Rightarrow> bool" where
  "launches n os \<longleftrightarrow>
     (\<forall>k < n. disk_ok (os_disk_usage os !! k) \<and> (\<forall>cmd. \<exists>p. (os_popen os !! k) cmd = Inr p))"


section \<open>Sample environments\<close>

text \<open>
  Concrete values on which the theorems below are instantiated: a time, an operating
  system where the disk has room, every launch gives a process that has exited by the
  first probe, every temporary file is found and every rename works; an idle recorder
  and a recorder that owns a process.
\<close>

definition sample_time :: datetime where
  "sample_time = \<lparr>year = 2024, month = 1, day = 1, hour = 12, minute = 0, second = 0\<rparr>"

definition sample_os :: os_world where
  "sample_os =
     \<lparr>os_clock = sconst sample_time,
      os_disk_usage = sconst (Inr 10000000000),
      os_popen = sconst (\<lambda>cmd. Inr (Process 1 (Some 0))),
      os_exists = sconst True,
      os_rename = sconst None,
      os_events = []\<rparr>"

definition idle_recorder :: StreamRecorder where
  "idle_recorder = new_StreamRecorder ''rec'' ''best'' None None"

definition busy_recorder :: StreamRecorder where
  "busy_recorder =
     idle_recorder\<lparr>p_process := Some (Process 1 None), p_start_time := Some sample_time,
       p_current_file := Some ''rec/a_20240101_120000.mp4'',
       p_temp_file := Some ''rec/.a_20240101_120000.mp4.tmp''\<rparr>"


text \<open>
  A configuration with three attempts that retries the network errors only, an operation
  that fails three times with such errors, and one whose second failure is of another
  class.
\<close>

definition net3 :: RetryConfig where
  "net3 = NETWORK_RETRY\<lparr>max_attempts := 3\<rparr>"

definition flaky3 :: "(exn + nat) stream" where
  "flaky3 = Inl (OSError ''a'') ## Inl (OSError ''b'') ## Inl (OSError ''c'') ## sconst (Inr 7)"

definition fatal2 :: "(exn + nat) stream" where
  "fatal2 = Inl (OSError ''a'') ## Inl (YouTubeError ''x'') ## sconst (Inr 7)"

text \<open>
  An environment in which every run of yt-dlp ends with the return code 1 and a message
  on its standard error.
\<close>

definition failing_yt :: yt_world where
  "failing_yt =
     \<lparr>yt_run = sconst (\<lambda>cmd. Inr \<lparr>returncode = 1, stdout = '''',
                                     stderr = ''ERROR: Video unavailable''\<rparr>),
      yt_json_loads = (\<lambda>s. Inl (JSONDecodeError ''Expecting value'')),
      yt_random = sconst (1 / 2)\<rparr>"

text \<open>
  A monitor, a channel, two poll results, and an environment in which the channel is
  polled offline, live with the stream A twice, live with the stream B, and offline from
  then on, while every URL is resolved and every recorder can be built.
\<close>

definition sample_monitor :: ChannelMonitor where
  "sample_monitor =
     \<lparr>mon_settings = \<lparr>set_output_dir = ''rec'', set_quality = ''best'', set_format = ''mp4'',
                       set_interval = 60\<rparr>,
      mon_cookies_from_browser = None, mon_cookies_file = None\<rparr>"

definition sample_channel :: ChannelConfig where
  "sample_channel = \<lparr>cfg_name = ''Chan'', cfg_channel_id = ''UCabc''\<rparr>"

definition live_status :: "string \<Rightarrow> LiveStatus" where
  "live_status v = \<lparr>is_live = True, video_id = Some v, title = Some ''Live now'',
                    channel_name = Some ''Chan''\<rparr>"

definition offline_status :: LiveStatus where
  "offline_status = \<lparr>is_live = False, video_id = None, title = None, channel_name = Some ''Chan''\<rparr>"

definition sample_url :: "string option \<Rightarrow> string" where
  "sample_url v = ''https://example.org/'' @ (case v of None \<Rightarrow> [] | Some i \<Rightarrow> i) @ ''.m3u8''"

definition sample_mworld :: mworld where
  "sample_mworld =
     \<lparr>mw_os = sample_os\<lparr>os_popen := (\<lambda>cmd. Inr (Process 1 (Some 0))) ##
                                     sconst (\<lambda>cmd. Inr (Process 2 (Some 0)))\<rparr>,
      mw_channel_live_status =
        Inr offline_status ## Inr (live_status ''A'') ## Inr (live_status ''A'') ##
        Inr (live_status ''B'') ## sconst (Inr offline_status),
      mw_get_stream_url = sconst (\<lambda>v q. Inr (sample_url v)),
      mw_ensure_directory = sconst None\<rparr>"

text \<open>The sample environment with capture processes that do not exit by themselves.\<close>

definition running_mworld :: mworld where
  "running_mworld =
     sample_mworld\<lparr>mw_os := sample_os\<lparr>os_popen := sconst (\<lambda>cmd. Inr (Process 1 None))\<rparr>\<rparr>"

text \<open>
  A configuration with four attempts and the base \<open>10^200\<close> (the float \<^verbatim>\<open>1e200\<close>) that
  retries the network errors, and an operation that fails with such an error at every
  invocation.
\<close>

definition big_base :: RetryConfig where
  "big_base = NETWORK_RETRY\<lparr>max_attempts := 4, exponential_base := 10 ^ 200\<rparr>"

definition always_OSError :: "(exn + nat) stream" where
  "always_OSError = sconst (Inl (OSError ''down''))"

text \<open>
  An environment in which yt-dlp succeeds and prints a JSON document that is not an
  object (\<^verbatim>\<open>null\<close>, say).
\<close>

definition null_yt :: yt_world where
  "null_yt =
     \<lparr>yt_run = sconst (\<lambda>cmd. Inr \<lparr>returncode = 0, stdout = ''null'', stderr = []\<rparr>),
      yt_json_loads = (\<lambda>s. Inr JOther),
      yt_random = sconst (1 / 2)\<rparr>"

text \<open>
  Environments of the reconnect loop. In the first the source is reported live at three
  checks and offline from then on, every capture process has exited by the first probe
  and every session leaves a file. The second differs in that no session leaves a file.
\<close>

definition sample_rworld :: rworld where
  "sample_rworld =
     \<lparr>rw_os = sample_os,
      rw_get_stream_url = sconst (Inr ''https://example.org/fresh.m3u8''),
      rw_check_is_live = Inr True ## Inr True ## Inr True ## sconst (Inr False)\<rparr>"

definition nofile_rworld :: rworld where
  "nofile_rworld = sample_rworld\<lparr>rw_os := sample_os\<lparr>os_exists := sconst False\<rparr>\<rparr>"

text \<open>
  A third environment of the loop: every capture process is found running twice before it
  has exited, the source is reported live at the nine checks that the first three sessions
  make and offline from then on, and the first three sessions leave a file while the
  fourth leaves none.
\<close>

definition three_part_rworld :: rworld where
  "three_part_rworld =
     \<lparr>rw_os = sample_os\<lparr>os_popen := sconst (\<lambda>cmd. Inr (Process 1 (Some 2))),
                         os_exists := True ## True ## True ## sconst False\<rparr>,
      rw_get_stream_url = sconst (Inr ''https://example.org/fresh.m3u8''),
      rw_check_is_live = replicate 9 (Inr True) @- sconst (Inr False)\<rparr>"

section \<open>Properties of the file names\<close>

lemma digit_char_is_digit: "is_digit (digit_char d)"
proof -
  have "d mod 10 < 10" by simp
  then consider "d mod 10 = 0" | "d mod 10 = 1" | "d mod 10 = 2" | "d mod 10 = 3" | "d mod 10 = 4"
    | "d mod 10 = 5" | "d mod 10 = 6" | "d mod 10 = 7" | "d mod 10 = 8" | "d mod 10 = 9"
    by atomize_elim arith
  then show ?thesis
    by cases (simp_all add: digit_char_def is_digit_def)
qed

lemma str_nat_digits: "list_all is_digit (str_nat n)"
proof (induction n rule: str_nat.induct)
  case (1 n)
  show ?case
  proof (cases "n < 10")
    case True
    then show ?thesis by (subst str_nat.simps) (simp add: digit_char_is_digit)
  next
    case False
    with 1 show ?thesis by (subst str_nat.simps) (simp add: digit_char_is_digit)
  qed
qed

lemma str_nat_length_1: "n < 10 \<Longrightarrow> length (str_nat n) = 1"
  by (subst str_nat.simps) simp

lemma str_nat_length_2: "10 \<le> n \<Longrightarrow> n < 100 \<Longrightarrow> length (str_nat n) = 2"
  by (subst str_nat.simps) (simp add: str_nat_length_1)

lemma str_nat_length_3: "100 \<le> n \<Longrightarrow> n < 1000 \<Longrightarrow> length (str_nat n) = 3"
  by (subst str_nat.simps) (simp add: str_nat_length_2)

lemma str_nat_length_4: "1000 \<le> n \<Longrightarrow> n < 10000 \<Longrightarrow> length (str_nat n) = 4"
  by (subst str_nat.simps) (simp add: str_nat_length_3)

lemma zfill_2_length: "n < 100 \<Longrightarrow> length (zfill 2 (str_nat n)) = 2"
  by (cases "n < 10") (simp_all add: zfill_def str_nat_length_1 str_nat_length_2)

lemma zfill_digits: "list_all is_digit (zfill w (str_nat n))"
proof -
  have "is_digit CHR ''0''" by (simp add: is_digit_def)
  then have "list_all is_digit (replicate k CHR ''0'')" for k
    by (induction k) simp_all
  then show ?thesis
    by (simp add: zfill_def str_nat_digits)
qed

lemma strftime_date_length: "valid_datetime t \<Longrightarrow> length (strftime_date t) = 8"
  by (simp add: valid_datetime_def strftime_date_def zfill_2_length)
     (simp add: zfill_def str_nat_length_4)

lemma strftime_time_length: "valid_datetime t \<Longrightarrow> length (strftime_time t) = 6"
  by (simp add: valid_datetime_def strftime_time_def zfill_2_length)

lemma strftime_date_digits: "list_all is_digit (strftime_date t)"
  by (simp add: strftime_date_def zfill_digits)

lemma strftime_time_digits: "list_all is_digit (strftime_time t)"
  by (simp add: strftime_time_def zfill_digits)

lemma digit_not_reserved: "is_digit c \<Longrightarrow> c \<notin> set reserved_chars"
  by (auto simp: is_digit_def reserved_chars_def)

lemma re_sub_reserved_clean: "set (re_sub_reserved name) \<inter> set reserved_chars = {}"
  by (auto simp: re_sub_reserved_def reserved_chars_def)

lemma strip_subset: "set (strip cs s) \<subseteq> set s"
proof -
  have "set (strip cs s) \<subseteq> set (dropWhile (\<lambda>c. c \<in> set cs) s)"
    unfolding strip_def using set_dropWhileD by fastforce
  also have "\<dots> \<subseteq> set s"
    using set_dropWhileD by fastforce
  finally show ?thesis .
qed

lemma sanitize_filename_clean: "set (sanitize_filename name) \<inter> set reserved_chars = {}"
proof -
  let ?s = "strip [CHR '' '', CHR ''.''] (re_sub_reserved name)"
  have s: "set ?s \<inter> set reserved_chars = {}"
    using strip_subset [of "[CHR '' '', CHR ''.'']" "re_sub_reserved name"]
      re_sub_reserved_clean [of name] by blast
  have t: "set (take 100 ?s) \<inter> set reserved_chars = {}"
    using s set_take_subset [of 100 ?s] by blast
  have u: "set ''unknown'' \<inter> set reserved_chars = {}"
    by (simp add: reserved_chars_def)
  show ?thesis
    unfolding sanitize_filename_def Let_def using s t u by (simp del: set_simps)
qed


lemma strip_decompose:
  "\<exists>pre post. s = pre @ strip cs s @ post \<and> set pre \<subseteq> set cs \<and> set post \<subseteq> set cs \<and>
     (strip cs s \<noteq> [] \<longrightarrow> hd (strip cs s) \<notin> set cs \<and> last (strip cs s) \<notin> set cs)"
proof -
  let ?P = "\<lambda>c. c \<in> set cs"
  let ?t = "dropWhile ?P s"
  let ?pre = "takeWhile ?P s"
  let ?post = "rev (takeWhile ?P (rev ?t))"
  have st: "strip cs s = rev (dropWhile ?P (rev ?t))"
    by (simp add: strip_def)
  have "rev (takeWhile ?P (rev ?t) @ dropWhile ?P (rev ?t)) = ?t"
    by (simp only: takeWhile_dropWhile_id rev_rev_ident)
  then have t: "?t = strip cs s @ ?post"
    by (simp only: rev_append st)
  have s: "s = ?pre @ strip cs s @ ?post"
    using t takeWhile_dropWhile_id [of ?P s] by simp
  have pre: "set ?pre \<subseteq> set cs"
    using set_takeWhileD by fastforce
  have post: "set ?post \<subseteq> set cs"
    using set_takeWhileD by fastforce
  have ends: "hd (strip cs s) \<notin> set cs \<and> last (strip cs s) \<notin> set cs" if ne: "strip cs s \<noteq> []"
  proof
    from ne have d: "dropWhile ?P (rev ?t) \<noteq> []"
      by (simp add: st)
    have "last (strip cs s) = hd (dropWhile ?P (rev ?t))"
      using d by (simp add: st last_rev)
    with hd_dropWhile [OF d] show "last (strip cs s) \<notin> set cs"
      by simp
    have tne: "?t \<noteq> []"
    proof
      assume "?t = []"
      with t have "strip cs s @ ?post = []"
        by (simp only:)
      with ne show False
        by simp
    qed
    from ne t have "hd ?t = hd (strip cs s)"
      by (metis hd_append2)
    with hd_dropWhile [OF tne] show "hd (strip cs s) \<notin> set cs"
      by simp
  qed
  from s pre post ends show ?thesis
    by blast
qed

lemma strip_clean:
  assumes "s \<noteq> []" "hd s \<notin> set cs" "last s \<notin> set cs"
  shows "strip cs s = s"
proof -
  from assms(1,2) have a: "dropWhile (\<lambda>c. c \<in> set cs) s = s"
    by (cases s) simp_all
  from assms(1,3) have "hd (rev s) \<notin> set cs"
    by (simp add: hd_rev)
  with assms(1) have "dropWhile (\<lambda>c. c \<in> set cs) (rev s) = rev s"
    by (cases "rev s") simp_all
  with a show ?thesis
    by (simp add: strip_def)
qed

lemma sanitize_filename_decompose:
  "\<exists>pre mid post.
     map (\<lambda>c. if c \<in> set reserved_chars then CHR ''_'' else c) nm = pre @ mid @ post \<and>
     set pre \<subseteq> {CHR '' '', CHR ''.''} \<and> set post \<subseteq> {CHR '' '', CHR ''.''} \<and>
     (mid \<noteq> [] \<longrightarrow> hd mid \<notin> {CHR '' '', CHR ''.''} \<and> last mid \<notin> {CHR '' '', CHR ''.''}) \<and>
     sanitize_filename nm = (if mid = [] then ''unknown'' else take 100 mid)"
proof -
  let ?m = "map (\<lambda>c. if c \<in> set reserved_chars then CHR ''_'' else c) nm"
  let ?mid = "strip [CHR '' '', CHR ''.''] ?m"
  from strip_decompose [of ?m "[CHR '' '', CHR ''.'']"]
  obtain pre post where d: "?m = pre @ ?mid @ post" "set pre \<subseteq> {CHR '' '', CHR ''.''}"
    "set post \<subseteq> {CHR '' '', CHR ''.''}"
    "?mid \<noteq> [] \<longrightarrow> hd ?mid \<notin> {CHR '' '', CHR ''.''} \<and> last ?mid \<notin> {CHR '' '', CHR ''.''}"
    by auto
  have "sanitize_filename nm = (if ?mid = [] then ''unknown'' else take 100 ?mid)"
    by (simp add: sanitize_filename_def re_sub_reserved_def Let_def)
  with d show ?thesis
    by blast
qed

lemma sanitize_filename_id:
  assumes "nm \<noteq> []" "set nm \<inter> set reserved_chars = {}"
    "hd nm \<notin> {CHR '' '', CHR ''.''}" "last nm \<notin> {CHR '' '', CHR ''.''}" "length nm \<le> 100"
  shows "sanitize_filename nm = nm"
proof -
  from assms(2) have "re_sub_reserved nm = nm"
    unfolding re_sub_reserved_def by (intro map_idI) auto
  moreover from assms(1,3,4) have "strip [CHR '' '', CHR ''.''] nm = nm"
    by (intro strip_clean) simp_all
  ultimately show ?thesis
    using assms(1,5) by (simp add: sanitize_filename_def Let_def)
qed

lemma digit_char_0: "digit_char 0 = CHR ''0''"
  by (simp add: digit_char_def)

lemma str_nat_small: "n < 10 \<Longrightarrow> str_nat n = [digit_char n]"
  by (subst str_nat.simps) simp

lemma str_nat_step: "10 \<le> n \<Longrightarrow> str_nat n = str_nat (n div 10) @ [digit_char (n mod 10)]"
  by (subst str_nat.simps) simp

lemma zfill_2_digits:
  "n < 100 \<Longrightarrow> zfill 2 (str_nat n) = [digit_char (n div 10), digit_char (n mod 10)]"
proof (cases "n < 10")
  case True
  then show ?thesis
    by (simp add: zfill_def str_nat_small digit_char_0)
next
  case False
  assume "n < 100"
  with False have "str_nat n = [digit_char (n div 10), digit_char (n mod 10)]"
    by (simp add: str_nat_step str_nat_small)
  then show ?thesis
    by (simp add: zfill_def)
qed

lemma zfill_4_digits:
  assumes "1000 \<le> n" "n < 10000"
  shows "zfill 4 (str_nat n) =
     [digit_char (n div 1000), digit_char (n div 100 mod 10), digit_char (n div 10 mod 10),
      digit_char (n mod 10)]"
proof -
  from assms have a: "str_nat n = str_nat (n div 10) @ [digit_char (n mod 10)]"
    by (simp add: str_nat_step)
  from assms have b: "str_nat (n div 10) = str_nat (n div 100) @ [digit_char (n div 10 mod 10)]"
    by (simp add: str_nat_step [of "n div 10"] div_mult2_eq [symmetric])
  from assms have c: "str_nat (n div 100) = str_nat (n div 1000) @ [digit_char (n div 100 mod 10)]"
    by (simp add: str_nat_step [of "n div 100"] div_mult2_eq [symmetric])
  from assms have d: "str_nat (n div 1000) = [digit_char (n div 1000)]"
    by (simp add: str_nat_small)
  show ?thesis
    by (simp add: zfill_def a b c d)
qed

text \<open>
  Claim C9, as stated, fails for an extension that holds a reserved character: the
  extension is copied into the name as it is given, so \<^verbatim>\<open>generate_filename("Chan", "m/p4")\<close>
  at the sample time holds a slash.
\<close>

theorem generate_filename_extension_counterexample:
  "generate_filename sample_time ''Chan'' ''m/p4'' = ''Chan_20240101_120000.m/p4'' \<and>
   CHR ''/'' \<in> set reserved_chars \<and>
   CHR ''/'' \<in> set (generate_filename sample_time ''Chan'' ''m/p4'')"
  by (simp add: generate_filename_def sanitize_filename_def re_sub_reserved_def strip_def
      reserved_chars_def strftime_def strftime_date_def strftime_time_def zfill_def
      str_nat.simps digit_char_def Let_def sample_time_def)

text \<open>
  Claim C9, amended. The name \<^verbatim>\<open>"Ch/an:nel*"\<close> at the time 2024-01-01 12:00:00 with
  the extension \<^verbatim>\<open>mp4\<close> gives exactly \<^verbatim>\<open>"Ch_an_nel__20240101_120000.mp4"\<close>.
  Every generated name is the sanitized source name, an underscore, the date, an
  underscore, the time, a dot and the extension. The sanitized name is got from the
  source name in this way: every reserved character is replaced by an underscore, the
  blanks and dots at both ends are dropped, and what is left in the middle is cut at 100
  characters, or is \<^verbatim>\<open>unknown\<close> when nothing is left; so a name of at most 100
  characters without reserved characters that neither starts nor ends with a blank or a
  dot is kept as it is. Date and time are digits; for a \<^verbatim>\<open>datetime\<close> with a year of
  four digits they are the eight decimal digits of year, month and day and the six of
  hour, minute and second. The name holds none of the characters
  \<^verbatim>\<open>< > : " / \ | ? *\<close> whenever the extension holds none of them, as with
  \<^verbatim>\<open>mp4\<close>, the only extension the recorder passes.
\<close>

theorem generate_filename_layout:
  "generate_filename \<lparr>year = 2024, month = 1, day = 1, hour = 12, minute = 0, second = 0\<rparr>
       ''Ch/an:nel*'' ''mp4'' = ''Ch_an_nel__20240101_120000.mp4'' \<and>
   generate_filename now nm ext =
     sanitize_filename nm @ ''_'' @ strftime_date now @ ''_'' @ strftime_time now @ ''.'' @ ext \<and>
   (\<exists>pre mid post.
      map (\<lambda>c. if c \<in> set reserved_chars then CHR ''_'' else c) nm = pre @ mid @ post \<and>
      set pre \<subseteq> {CHR '' '', CHR ''.''} \<and> set post \<subseteq> {CHR '' '', CHR ''.''} \<and>
      (mid \<noteq> [] \<longrightarrow> hd mid \<notin> {CHR '' '', CHR ''.''} \<and> last mid \<notin> {CHR '' '', CHR ''.''}) \<and>
      sanitize_filename nm = (if mid = [] then ''unknown'' else take 100 mid)) \<and>
   (nm \<noteq> [] \<and> set nm \<inter> set reserved_chars = {} \<and> hd nm \<notin> {CHR '' '', CHR ''.''} \<and>
    last nm \<notin> {CHR '' '', CHR ''.''} \<and> length nm \<le> 100 \<longrightarrow> sanitize_filename nm = nm) \<and>
   list_all is_digit (strftime_date now) \<and> list_all is_digit (strftime_time now) \<and>
   (valid_datetime now \<longrightarrow> length (strftime_date now) = 8 \<and> length (strftime_time now) = 6) \<and>
   (valid_datetime now \<longrightarrow>
      (let d = (\<lambda>n. ''0123456789'' ! (n mod 10)) in
       strftime_date now =
         [d (year now div 1000), d (year now div 100), d (year now div 10), d (year now),
          d (month now div 10), d (month now), d (day now div 10), d (day now)] \<and>
       strftime_time now =
         [d (hour now div 10), d (hour now), d (minute now div 10), d (minute now),
          d (second now div 10), d (second now)])) \<and>
   set (generate_filename now nm ''mp4'') \<inter> set reserved_chars = {} \<and>
   (set ext \<inter> set reserved_chars = {} \<longrightarrow>
      set (generate_filename now nm ext) \<inter> set reserved_chars = {})"
proof -
  have example: "generate_filename \<lparr>year = 2024, month = 1, day = 1, hour = 12, minute = 0, second = 0\<rparr>
       ''Ch/an:nel*'' ''mp4'' = ''Ch_an_nel__20240101_120000.mp4''"
    by (simp add: generate_filename_def sanitize_filename_def re_sub_reserved_def strip_def
        reserved_chars_def strftime_def strftime_date_def strftime_time_def zfill_def
        str_nat.simps digit_char_def Let_def)
  have layout: "generate_filename now nm x =
      sanitize_filename nm @ ''_'' @ strftime_date now @ ''_'' @ strftime_time now @ ''.'' @ x"
    for x
    by (simp add: generate_filename_def strftime_def Let_def)
  have stamp: "set (strftime_date now) \<inter> set reserved_chars = {}"
    "set (strftime_time now) \<inter> set reserved_chars = {}"
    using strftime_date_digits [of now] strftime_time_digits [of now] digit_not_reserved
    by (auto simp: list_all_iff)
  have sep: "CHR ''_'' \<notin> set reserved_chars" "CHR ''.'' \<notin> set reserved_chars"
    by (simp_all add: reserved_chars_def)
  have clean: "set (generate_filename now nm x) \<inter> set reserved_chars = {}"
    if "set x \<inter> set reserved_chars = {}" for x
    unfolding layout using that stamp sep sanitize_filename_clean [of nm]
    by (simp add: Int_Un_distrib2)
  have mp4: "set ''mp4'' \<inter> set reserved_chars = {}"
    by (simp add: reserved_chars_def)
  have ident: "nm \<noteq> [] \<and> set nm \<inter> set reserved_chars = {} \<and> hd nm \<notin> {CHR '' '', CHR ''.''} \<and>
    last nm \<notin> {CHR '' '', CHR ''.''} \<and> length nm \<le> 100 \<longrightarrow> sanitize_filename nm = nm"
    using sanitize_filename_id [of nm] by blast
  have digits: "valid_datetime now \<longrightarrow>
      (let d = (\<lambda>n. ''0123456789'' ! (n mod 10)) in
       strftime_date now =
         [d (year now div 1000), d (year now div 100), d (year now div 10), d (year now),
          d (month now div 10), d (month now), d (day now div 10), d (day now)] \<and>
       strftime_time now =
         [d (hour now div 10), d (hour now), d (minute now div 10), d (minute now),
          d (second now div 10), d (second now)])"
    unfolding Let_def
  proof
    assume v: "valid_datetime now"
    then have y: "1000 \<le> year now" "year now < 10000" and o: "month now < 100" "day now < 100"
      "hour now < 100" "minute now < 100" "second now < 100"
      by (simp_all add: valid_datetime_def)
    show "strftime_date now =
         [''0123456789'' ! (year now div 1000 mod 10), ''0123456789'' ! (year now div 100 mod 10),
          ''0123456789'' ! (year now div 10 mod 10), ''0123456789'' ! (year now mod 10),
          ''0123456789'' ! (month now div 10 mod 10), ''0123456789'' ! (month now mod 10),
          ''0123456789'' ! (day now div 10 mod 10), ''0123456789'' ! (day now mod 10)] \<and>
       strftime_time now =
         [''0123456789'' ! (hour now div 10 mod 10), ''0123456789'' ! (hour now mod 10),
          ''0123456789'' ! (minute now div 10 mod 10), ''0123456789'' ! (minute now mod 10),
          ''0123456789'' ! (second now div 10 mod 10), ''0123456789'' ! (second now mod 10)]"
      unfolding strftime_date_def strftime_time_def zfill_4_digits [OF y] zfill_2_digits [OF o(1)]
        zfill_2_digits [OF o(2)] zfill_2_digits [OF o(3)] zfill_2_digits [OF o(4)]
        zfill_2_digits [OF o(5)] digit_char_def
      by simp
  qed
  show ?thesis
    using example layout [of ext] clean [of ext] clean [OF mp4] ident digits
      sanitize_filename_decompose [of nm]
      strftime_date_length [of now] strftime_time_length [of now]
      strftime_date_digits [of now] strftime_time_digits [of now]
    by blast
qed

theorem generate_filename_layout_witness:
  "valid_datetime \<lparr>year = 2025, month = 12, day = 31, hour = 23, minute = 59, second = 7\<rparr> \<and>
   length (strftime_date \<lparr>year = 2025, month = 12, day = 31, hour = 23, minute = 59, second = 7\<rparr>) = 8 \<and>
   length (strftime_time \<lparr>year = 2025, month = 12, day = 31, hour = 23, minute = 59, second = 7\<rparr>) = 6 \<and>
   strftime_date \<lparr>year = 2025, month = 12, day = 31, hour = 23, minute = 59, second = 7\<rparr> = ''20251231'' \<and>
   strftime_time \<lparr>year = 2025, month = 12, day = 31, hour = 23, minute = 59, second = 7\<rparr> = ''235907'' \<and>
   set ''webm'' \<inter> set reserved_chars = {} \<and>
   generate_filename \<lparr>year = 2025, month = 12, day = 31, hour = 23, minute = 59, second = 7\<rparr>
       '' a<b>c. '' ''webm'' = ''a_b_c_20251231_235907.webm'' \<and>
   set ''a_b_c_20251231_235907.webm'' \<inter> set reserved_chars = {} \<and>
   map (\<lambda>c. if c \<in> set reserved_chars then CHR ''_'' else c) '' a<b>c. '' = '' '' @ ''a_b_c'' @ ''. '' \<and>
   sanitize_filename '' a<b>c. '' = take 100 ''a_b_c'' \<and>
   ''Chan'' \<noteq> [] \<and> set ''Chan'' \<inter> set reserved_chars = {} \<and>
   hd ''Chan'' \<notin> {CHR '' '', CHR ''.''} \<and> last ''Chan'' \<notin> {CHR '' '', CHR ''.''} \<and>
   length ''Chan'' \<le> 100 \<and> sanitize_filename ''Chan'' = ''Chan''"
proof -
  let ?t = "\<lparr>year = 2025, month = 12, day = 31, hour = 23, minute = 59, second = 7\<rparr>"
  have v: "valid_datetime ?t"
    by (simp add: valid_datetime_def)
  have e: "set ''webm'' \<inter> set reserved_chars = {}"
    by (simp add: reserved_chars_def)
  have n: "generate_filename ?t '' a<b>c. '' ''webm'' = ''a_b_c_20251231_235907.webm''"
    by (simp add: generate_filename_def sanitize_filename_def re_sub_reserved_def strip_def
        reserved_chars_def strftime_def strftime_date_def strftime_time_def zfill_def
        str_nat.simps digit_char_def Let_def)
  have m: "map (\<lambda>c. if c \<in> set reserved_chars then CHR ''_'' else c) '' a<b>c. '' =
      '' '' @ ''a_b_c'' @ ''. ''"
    "sanitize_filename '' a<b>c. '' = take 100 ''a_b_c''"
    by (simp_all add: sanitize_filename_def re_sub_reserved_def strip_def reserved_chars_def Let_def)
  have c: "''Chan'' \<noteq> []" "set ''Chan'' \<inter> set reserved_chars = {}"
    "hd ''Chan'' \<notin> {CHR '' '', CHR ''.''}" "last ''Chan'' \<notin> {CHR '' '', CHR ''.''}"
    "length ''Chan'' \<le> 100"
    by (simp_all add: reserved_chars_def)
  note inst = generate_filename_layout [of ?t "'' a<b>c. ''" "''webm''"]
  from inst v have l: "length (strftime_date ?t) = 8 \<and> length (strftime_time ?t) = 6"
    by blast
  from inst v have "let d = (\<lambda>n. ''0123456789'' ! (n mod 10)) in
       strftime_date ?t =
         [d (year ?t div 1000), d (year ?t div 100), d (year ?t div 10), d (year ?t),
          d (month ?t div 10), d (month ?t), d (day ?t div 10), d (day ?t)] \<and>
       strftime_time ?t =
         [d (hour ?t div 10), d (hour ?t), d (minute ?t div 10), d (minute ?t),
          d (second ?t div 10), d (second ?t)]"
    by blast
  then have s: "strftime_date ?t = ''20251231''" "strftime_time ?t = ''235907''"
    by (simp_all add: Let_def)
  from inst e have r: "set (generate_filename ?t '' a<b>c. '' ''webm'') \<inter> set reserved_chars = {}"
    by blast
  from generate_filename_layout [of ?t "''Chan''" "''webm''"] c
  have i: "sanitize_filename ''Chan'' = ''Chan''"
    by blast
  from v e n l s r m c i show ?thesis
    by simp
qed


section \<open>Properties of the backoff delay\<close>

lemma float_pow_nonneg:
  "0 \<le> n \<Longrightarrow> \<not> float_overflow (real_of_int n) \<Longrightarrow> float_pow x n =
     (if float_overflow (x ^ nat n) then Inl (OverflowError ''Numerical result out of range'')
      else Inr (x ^ nat n))"
  by (simp add: float_pow_def power_int_def)

lemma jitter_range:
  fixes d u :: real
  assumes "0 \<le> d" "0 \<le> u" "u \<le> 1"
  shows "0 \<le> d + uniform u (- (d * 0.25)) (d * 0.25)"
    and "d + uniform u (- (d * 0.25)) (d * 0.25) \<le> d * 1.25"
proof -
  have eq: "d + uniform u (- (d * 0.25)) (d * 0.25) = d * (0.75 + u * 0.5)"
    by (simp add: uniform_def algebra_simps)
  have "0 \<le> d * (0.75 + u * 0.5)"
    using assms by (intro mult_nonneg_nonneg) auto
  then show "0 \<le> d + uniform u (- (d * 0.25)) (d * 0.25)"
    by (simp only: eq)
  have "d * (0.75 + u * 0.5) \<le> d * 1.25"
    using assms by (intro mult_left_mono) auto
  then show "d + uniform u (- (d * 0.25)) (d * 0.25) \<le> d * 1.25"
    by (simp only: eq)
qed

text \<open>
  Where the power is a finite float the delay is as the cap and the jitter make it. For
  an attempt \<open>\<ge> 0\<close> that a float can hold, a configuration whose two delays and base are
  \<open>\<ge> 0\<close> and a sample of \<^verbatim>\<open>random()\<close> between 0 and 1, whenever the power
  \<^verbatim>\<open>exponential_base ** attempt\<close> is a finite float, \<^verbatim>\<open>calculate_delay\<close> returns
  a delay \<open>d\<close> with \<open>0 \<le> d \<le> max_delay * 1.25\<close>, and with jitter disabled \<open>d\<close> is
  \<open>base_delay * exponential_base ^ attempt\<close> capped at \<open>max_delay\<close>.
\<close>

lemma calculate_delay_finite:
  assumes "0 \<le> attempt" "0 \<le> base_delay cfg" "0 \<le> max_delay cfg" "0 \<le> exponential_base cfg"
    and "0 \<le> u" "u \<le> 1"
    and "\<not> float_overflow (exponential_base cfg ^ nat attempt)"
    and "\<not> float_overflow (real_of_int attempt)"
  shows "\<exists>d. calculate_delay u attempt cfg = Inr d \<and> 0 \<le> d \<and> d \<le> max_delay cfg * 1.25 \<and>
           (\<not> jitter cfg \<longrightarrow>
              d = min (base_delay cfg * exponential_base cfg ^ nat attempt) (max_delay cfg))"
proof -
  define c where "c = min (base_delay cfg * exponential_base cfg ^ nat attempt) (max_delay cfg)"
  have c0: "0 \<le> c"
    unfolding c_def using assms by simp
  have cM: "c \<le> max_delay cfg"
    unfolding c_def by simp
  show ?thesis
  proof (cases "jitter cfg")
    case False
    then have "calculate_delay u attempt cfg = Inr (max 0 c)"
      using assms by (simp add: calculate_delay_def float_pow_nonneg c_def Let_def)
    with c0 cM False assms(3) show ?thesis
      by (simp add: c_def max_def)
  next
    case True
    then have "calculate_delay u attempt cfg = Inr (max 0 (c + uniform u (- (c * 0.25)) (c * 0.25)))"
      using assms by (simp add: calculate_delay_def float_pow_nonneg c_def Let_def)
    moreover have "c + uniform u (- (c * 0.25)) (c * 0.25) \<le> max_delay cfg * 1.25"
      using jitter_range(2) [OF c0 assms(5,6)] cM by simp
    ultimately show ?thesis
      using True jitter_range(1) [OF c0 assms(5,6)] by simp
  qed
qed

lemma calculate_delay_finite_sample:
  "\<not> float_overflow (exponential_base default_RetryConfig ^ nat 3) \<and>
   (\<exists>d. calculate_delay (1 / 2) 3 default_RetryConfig = Inr d \<and> 0 \<le> d \<and> d \<le> 30 * 1.25) \<and>
   \<not> jitter (default_RetryConfig\<lparr>jitter := False\<rparr>) \<and>
   calculate_delay (1 / 2) 5 (default_RetryConfig\<lparr>jitter := False\<rparr>) = Inr 30"
proof -
  have fin: "\<not> float_overflow (exponential_base default_RetryConfig ^ nat 3)"
    by (simp add: float_overflow_def default_RetryConfig_def)
  have fin': "\<not> float_overflow (exponential_base (default_RetryConfig\<lparr>jitter := False\<rparr>) ^ nat 5)"
    by (simp add: float_overflow_def default_RetryConfig_def)
  have a: "\<exists>d. calculate_delay (1 / 2) 3 default_RetryConfig = Inr d \<and> 0 \<le> d \<and> d \<le> 30 * 1.25"
    using calculate_delay_finite [of 3 default_RetryConfig "1 / 2", OF _ _ _ _ _ _ fin]
    by (simp add: default_RetryConfig_def float_overflow_def)
  have b: "calculate_delay (1 / 2) 5 (default_RetryConfig\<lparr>jitter := False\<rparr>) = Inr 30"
    using calculate_delay_finite [of 5 "default_RetryConfig\<lparr>jitter := False\<rparr>" "1 / 2",
        OF _ _ _ _ _ _ fin']
    by (auto simp: default_RetryConfig_def float_overflow_def)
  from fin a b show ?thesis
    by (simp add: default_RetryConfig_def)
qed

text \<open>
  Claim C5. The configuration \<^verbatim>\<open>RetryConfig()\<close> has the two delays and the base
  \<open>\<ge> 0\<close>, and 1024 is an attempt \<open>\<ge> 0\<close>; yet \<^verbatim>\<open>calculate_delay(1024, RetryConfig())\<close>
  returns no delay, whatever the sample of \<^verbatim>\<open>random()\<close>: the power
  \<^verbatim>\<open>2.0 ** 1024\<close> of the first statement raises \<^verbatim>\<open>OverflowError\<close> before the
  statement that caps the delay at \<^verbatim>\<open>max_delay\<close> is reached. The cap would have given
  30, since from the attempt 5 on the power is above \<^verbatim>\<open>max_delay\<close>.
\<close>

theorem calculate_delay_raises:
  "0 \<le> base_delay default_RetryConfig \<and> 0 \<le> max_delay default_RetryConfig \<and>
   0 \<le> exponential_base default_RetryConfig \<and> (0 :: int) \<le> 1024 \<and>
   calculate_delay u 1024 default_RetryConfig =
     Inl (OverflowError ''Numerical result out of range'') \<and>
   min (base_delay default_RetryConfig * exponential_base default_RetryConfig ^ 1024)
       (max_delay default_RetryConfig) = 30"
  by (simp add: calculate_delay_def float_pow_def float_overflow_def default_RetryConfig_def)


section \<open>Properties of the retry executor\<close>

lemma upto_Cons_eq:
  "a # rest = [i..j] \<Longrightarrow> a = i \<and> rest = [i + 1..j] \<and> i \<le> j"
  by (cases "i \<le> j") (simp_all add: upto.simps [of i j])

lemma retry_attempts_calls:
  "retry_attempts func cfg obs rnd atts lst tr = (out, tr') \<Longrightarrow>
   calls tr \<le> calls tr' \<and> calls tr' \<le> calls tr + length atts \<and> (atts \<noteq> [] \<longrightarrow> calls tr < calls tr')"
proof (induction atts arbitrary: func rnd lst tr)
  case Nil
  then show ?case by auto
next
  case (Cons a rest)
  show ?case
  proof (cases "shd func")
    case (Inr v)
    with Cons.prems show ?thesis by (auto simp: Let_def)
  next
    case (Inl e)
    show ?thesis
    proof (cases "retryable_exceptions cfg e \<and> a < max_attempts cfg - 1")
      case False
      with Cons.prems Inl show ?thesis by (auto simp: Let_def split: if_splits)
    next
      case True
      show ?thesis
      proof (cases "calculate_delay (shd rnd) a cfg")
        case (Inl e')
        with Cons.prems \<open>shd func = Inl e\<close> True show ?thesis by (auto simp: Let_def)
      next
        case (Inr delay)
        with Cons.prems \<open>shd func = Inl e\<close> True
        have "retry_attempts (stl func) cfg obs (if jitter cfg then stl rnd else rnd) rest (Some e)
                (tr\<lparr>calls := Suc (calls tr),
                    observed := observed tr @ (if obs then [(a + 1, e, delay)] else []),
                    slept := slept tr @ [delay]\<rparr>) = (out, tr')"
          by (simp add: Let_def)
        from Cons.IH [OF this] show ?thesis by simp
      qed
    qed
  qed
qed

lemma retry_attempts_not_retryable:
  "retry_attempts func cfg obs rnd atts lst tr = (out, tr') \<Longrightarrow>
   k < calls tr' - calls tr \<Longrightarrow> func !! k = Inl e \<Longrightarrow> \<not> retryable_exceptions cfg e \<Longrightarrow>
   Suc k = calls tr' - calls tr \<and> out = Inl e"
proof (induction atts arbitrary: func rnd lst tr k)
  case Nil
  then show ?case by auto
next
  case (Cons a rest)
  show ?case
  proof (cases "shd func")
    case (Inr v)
    with Cons.prems show ?thesis by (cases k) (auto simp: Let_def)
  next
    case (Inl e0)
    show ?thesis
    proof (cases "retryable_exceptions cfg e0")
      case False
      with Cons.prems Inl show ?thesis by (cases k) (auto simp: Let_def)
    next
      case True
      note retry = this
      show ?thesis
      proof (cases "a < max_attempts cfg - 1")
        case False
        with Cons.prems Inl retry show ?thesis by (cases k) (auto simp: Let_def)
      next
        case True
        show ?thesis
        proof (cases "calculate_delay (shd rnd) a cfg")
          case (Inl e')
          with Cons.prems \<open>shd func = Inl e0\<close> True retry show ?thesis
            by (cases k) (auto simp: Let_def)
        next
          case (Inr delay)
          let ?tr = "tr\<lparr>calls := Suc (calls tr),
                    observed := observed tr @ (if obs then [(a + 1, e0, delay)] else []),
                    slept := slept tr @ [delay]\<rparr>"
          from Inr Cons.prems(1) \<open>shd func = Inl e0\<close> True retry
          have rec: "retry_attempts (stl func) cfg obs (if jitter cfg then stl rnd else rnd) rest
                  (Some e0) ?tr = (out, tr')"
            by (simp add: Let_def)
          show ?thesis
          proof (cases k)
            case 0
            with Cons.prems \<open>shd func = Inl e0\<close> retry show ?thesis by simp
          next
            case (Suc k')
            with Cons.prems have "k' < calls tr' - calls ?tr" "stl func !! k' = Inl e"
              by simp_all
            from Cons.IH [OF rec this Cons.prems(4)] Suc show ?thesis by auto
          qed
        qed
      qed
    qed
  qed
qed

lemma retry_attempts_exhausted:
  "retry_attempts func cfg obs rnd atts lst tr = (out, tr') \<Longrightarrow>
   atts = [i..max_attempts cfg - 1] \<Longrightarrow>
   calls tr' = calls tr + length atts \<Longrightarrow>
   \<forall>k < length atts. \<exists>e. func !! k = Inl e \<and> retryable_exceptions cfg e \<Longrightarrow>
   atts \<noteq> [] \<Longrightarrow>
   \<exists>e. func !! (length atts - 1) = Inl e \<and>
       out = Inl (RetryExhaustedError
                    (''Function failed after '' @ str_int (max_attempts cfg) @ '' attempts'') (Some e))"
proof (induction atts arbitrary: func rnd lst tr i)
  case Nil
  then show ?case by simp
next
  case (Cons a rest)
  from upto_Cons_eq [OF Cons.prems(2)]
  have a: "a = i" and rest: "rest = [i + 1..max_attempts cfg - 1]" and le: "i \<le> max_attempts cfg - 1"
    by simp_all
  from Cons.prems(4) obtain e0 where e0: "shd func = Inl e0" "retryable_exceptions cfg e0"
    by fastforce
  show ?case
  proof (cases "a < max_attempts cfg - 1")
    case False
    with a le have last: "rest = []"
      using rest by simp
    with Cons.prems(1) e0 False show ?thesis
      by (simp add: Let_def)
  next
    case True
    then have ne: "rest \<noteq> []"
      using a rest by (simp add: upto.simps [of "i + 1"])
    show ?thesis
    proof (cases "calculate_delay (shd rnd) a cfg")
      case (Inl e')
      with Cons.prems(1) e0 True have "calls tr' = Suc (calls tr)"
        by (auto simp: Let_def)
      with Cons.prems(3) ne show ?thesis by simp
    next
      case (Inr delay)
      let ?tr = "tr\<lparr>calls := Suc (calls tr),
                observed := observed tr @ (if obs then [(a + 1, e0, delay)] else []),
                slept := slept tr @ [delay]\<rparr>"
      from Inr Cons.prems(1) e0 True
      have rec: "retry_attempts (stl func) cfg obs (if jitter cfg then stl rnd else rnd) rest
              (Some e0) ?tr = (out, tr')"
        by (simp add: Let_def)
      have c: "calls tr' = calls ?tr + length rest"
        using Cons.prems(3) by simp
      have all: "\<forall>k < length rest. \<exists>e. stl func !! k = Inl e \<and> retryable_exceptions cfg e"
        using Cons.prems(4) by fastforce
      from Cons.IH [OF rec rest c all ne] obtain e where
        "stl func !! (length rest - 1) = Inl e"
        "out = Inl (RetryExhaustedError
                    (''Function failed after '' @ str_int (max_attempts cfg) @ '' attempts'') (Some e))"
        by blast
      moreover have "func !! (length (a # rest) - 1) = stl func !! (length rest - 1)"
        using ne by (cases rest) simp_all
      ultimately show ?thesis by simp
    qed
  qed
qed

lemma retry_with_backoff_facts:
  fixes func :: "(exn + 'a) stream"
  assumes run: "retry_with_backoff func (Some cfg) obs rnd = (out, tr)"
  shows "int (calls tr) \<le> max 0 (max_attempts cfg)"
    and "k < calls tr \<and> func !! k = Inl e \<and> \<not> retryable_exceptions cfg e \<longrightarrow>
           Suc k = calls tr \<and> out = Inl e"
    and "1 \<le> max_attempts cfg \<and> int (calls tr) = max_attempts cfg \<and>
         (\<forall>j < calls tr. \<exists>e. func !! j = Inl e \<and> retryable_exceptions cfg e) \<longrightarrow>
           (\<exists>e. func !! (calls tr - 1) = Inl e \<and>
                out = Inl (RetryExhaustedError
                    (''Function failed after '' @ str_int (max_attempts cfg) @ '' attempts'') (Some e)))"
proof -
  let ?atts = "[0..max_attempts cfg - 1]"
  from run have r: "retry_attempts func cfg obs rnd ?atts None no_trace = (out, tr)"
    by (simp add: retry_with_backoff_def)
  have c0: "calls no_trace = 0"
    by (simp add: no_trace_def)
  from retry_attempts_calls [OF r] c0 show "int (calls tr) \<le> max 0 (max_attempts cfg)"
    by (simp add: max_def) linarith
  from retry_attempts_not_retryable [OF r, of k e] c0
  show "k < calls tr \<and> func !! k = Inl e \<and> \<not> retryable_exceptions cfg e \<longrightarrow>
           Suc k = calls tr \<and> out = Inl e"
    by simp
  show "1 \<le> max_attempts cfg \<and> int (calls tr) = max_attempts cfg \<and>
         (\<forall>j < calls tr. \<exists>e. func !! j = Inl e \<and> retryable_exceptions cfg e) \<longrightarrow>
           (\<exists>e. func !! (calls tr - 1) = Inl e \<and>
                out = Inl (RetryExhaustedError
                    (''Function failed after '' @ str_int (max_attempts cfg) @ '' attempts'') (Some e)))"
  proof
    assume h: "1 \<le> max_attempts cfg \<and> int (calls tr) = max_attempts cfg \<and>
         (\<forall>j < calls tr. \<exists>e. func !! j = Inl e \<and> retryable_exceptions cfg e)"
    then have len: "calls tr = calls no_trace + length ?atts"
      using c0 by simp linarith
    from h have ne: "?atts \<noteq> []"
      by (simp add: upto.simps [of 0])
    have all: "\<forall>j < length ?atts. \<exists>e. func !! j = Inl e \<and> retryable_exceptions cfg e"
      using h len c0 by simp
    from retry_attempts_exhausted [OF r refl len all ne] len c0
    show "\<exists>e. func !! (calls tr - 1) = Inl e \<and>
                out = Inl (RetryExhaustedError
                    (''Function failed after '' @ str_int (max_attempts cfg) @ '' attempts'') (Some e))"
      by simp
  qed
qed



lemma retry_attempts_all_fail:
  "atts = [i..max_attempts cfg - 1] \<Longrightarrow> atts \<noteq> [] \<Longrightarrow> 0 \<le> i \<Longrightarrow>
   \<forall>k < length atts. \<exists>e. func !! k = Inl e \<and> retryable_exceptions cfg e \<Longrightarrow>
   \<forall>a u. 0 \<le> a \<and> a < max_attempts cfg - 1 \<longrightarrow> (\<exists>d. calculate_delay u a cfg = Inr d) \<Longrightarrow>
   \<exists>e tr'. retry_attempts func cfg obs rnd atts lst tr =
             (Inl (RetryExhaustedError
                     (''Function failed after '' @ str_int (max_attempts cfg) @ '' attempts'')
                     (Some e)), tr') \<and>
           func !! (length atts - 1) = Inl e \<and> calls tr' = calls tr + length atts"
proof (induction atts arbitrary: func rnd lst tr i)
  case Nil
  then show ?case by simp
next
  case (Cons a rest)
  from upto_Cons_eq [OF Cons.prems(1)]
  have a: "a = i" and rest: "rest = [i + 1..max_attempts cfg - 1]" and le: "i \<le> max_attempts cfg - 1"
    by simp_all
  from Cons.prems(4) obtain e0 where e0: "shd func = Inl e0" "retryable_exceptions cfg e0"
    by fastforce
  show ?case
  proof (cases "a < max_attempts cfg - 1")
    case False
    with a le have "rest = []"
      using rest by simp
    with e0 False show ?thesis
      by (simp add: Let_def)
  next
    case True
    then have ne: "rest \<noteq> []"
      using a rest by (simp add: upto.simps [of "i + 1"])
    from Cons.prems(3,5) True a obtain delay where d: "calculate_delay (shd rnd) a cfg = Inr delay"
      by blast
    let ?tr = "tr\<lparr>calls := Suc (calls tr),
              observed := observed tr @ (if obs then [(a + 1, e0, delay)] else []),
              slept := slept tr @ [delay]\<rparr>"
    have unfold: "retry_attempts func cfg obs rnd (a # rest) lst tr =
        retry_attempts (stl func) cfg obs (if jitter cfg then stl rnd else rnd) rest (Some e0) ?tr"
      using e0 True d by (simp add: Let_def)
    have all: "\<forall>k < length rest. \<exists>e. stl func !! k = Inl e \<and> retryable_exceptions cfg e"
      using Cons.prems(4) by fastforce
    have i1: "0 \<le> i + 1"
      using Cons.prems(3) by simp
    from Cons.IH [OF rest ne i1 all Cons.prems(5),
        of "if jitter cfg then stl rnd else rnd" "Some e0" ?tr]
    obtain e tr' where
      "retry_attempts (stl func) cfg obs (if jitter cfg then stl rnd else rnd) rest (Some e0) ?tr =
         (Inl (RetryExhaustedError
                 (''Function failed after '' @ str_int (max_attempts cfg) @ '' attempts'')
                 (Some e)), tr')"
      "stl func !! (length rest - 1) = Inl e" "calls tr' = calls ?tr + length rest"
      by blast
    moreover have "func !! (length (a # rest) - 1) = stl func !! (length rest - 1)"
      using ne by (cases rest) simp_all
    ultimately show ?thesis
      unfolding unfold by simp
  qed
qed

text \<open>
  What a run of \<^verbatim>\<open>retry_with_backoff\<close> does whenever every delay it asks for can be
  computed. When \<^verbatim>\<open>max_attempts\<close> is at least 1, each of the first \<^verbatim>\<open>max_attempts\<close>
  invocations of the operation fails with a retryable exception and \<^verbatim>\<open>calculate_delay\<close>
  returns for every attempt below \<^verbatim>\<open>max_attempts - 1\<close>, the run makes exactly
  \<^verbatim>\<open>max_attempts\<close> invocations and raises \<^verbatim>\<open>RetryExhaustedError\<close> carrying the
  exception of the last one.
\<close>

lemma retry_with_backoff_exhausts:
  fixes func :: "(exn + 'a) stream"
  assumes "1 \<le> max_attempts cfg"
    and "\<forall>k < nat (max_attempts cfg). \<exists>e. func !! k = Inl e \<and> retryable_exceptions cfg e"
    and "\<forall>a u. 0 \<le> a \<and> a < max_attempts cfg - 1 \<longrightarrow> (\<exists>d. calculate_delay u a cfg = Inr d)"
  shows "\<exists>e tr. retry_with_backoff func (Some cfg) obs rnd =
             (Inl (RetryExhaustedError
                     (''Function failed after '' @ str_int (max_attempts cfg) @ '' attempts'')
                     (Some e)), tr) \<and>
           func !! (nat (max_attempts cfg) - 1) = Inl e \<and> int (calls tr) = max_attempts cfg"
proof -
  let ?atts = "[0..max_attempts cfg - 1]"
  have len: "length ?atts = nat (max_attempts cfg)"
    using assms(1) by simp
  have ne: "?atts \<noteq> []"
    using assms(1) by (simp add: upto.simps [of 0])
  have all: "\<forall>k < length ?atts. \<exists>e. func !! k = Inl e \<and> retryable_exceptions cfg e"
    using assms(2) len by simp
  from retry_attempts_all_fail [OF refl ne order_refl all assms(3), of obs rnd None no_trace]
  obtain e tr' where
    "retry_attempts func cfg obs rnd ?atts None no_trace =
       (Inl (RetryExhaustedError
               (''Function failed after '' @ str_int (max_attempts cfg) @ '' attempts'')
               (Some e)), tr')"
    "func !! (length ?atts - 1) = Inl e" "calls tr' = calls no_trace + length ?atts"
    by blast
  then show ?thesis
    using len assms(1) by (simp add: retry_with_backoff_def no_trace_def)
qed

text \<open>
  What holds of every run of \<^verbatim>\<open>retry_with_backoff\<close>. It invokes the operation at most
  \<^verbatim>\<open>max_attempts\<close> times (never, when that number is not positive). An invocation
  that fails with an exception outside the retryable classes is the last one, and its
  exception is what the run raises. When \<^verbatim>\<open>max_attempts\<close> invocations were made
  and every one failed with a retryable exception, the run raises
  \<^verbatim>\<open>RetryExhaustedError\<close> carrying the exception of the last invocation.
\<close>

lemma retry_with_backoff_outcomes:
  "(case retry_with_backoff func (Some cfg) obs rnd of
      (out, tr) \<Rightarrow>
        int (calls tr) \<le> max 0 (max_attempts cfg) \<and>
        (\<forall>k e. k < calls tr \<and> func !! k = Inl e \<and> \<not> retryable_exceptions cfg e \<longrightarrow>
               Suc k = calls tr \<and> out = Inl e) \<and>
        (1 \<le> max_attempts cfg \<and> int (calls tr) = max_attempts cfg \<and>
         (\<forall>j < calls tr. \<exists>e. func !! j = Inl e \<and> retryable_exceptions cfg e) \<longrightarrow>
           (\<exists>e. func !! (calls tr - 1) = Inl e \<and>
                out = Inl (RetryExhaustedError
                    (''Function failed after '' @ str_int (max_attempts cfg) @ '' attempts'')
                    (Some e)))))"
proof (cases "retry_with_backoff func (Some cfg) obs rnd")
  case (Pair out tr)
  have a: "int (calls tr) \<le> max 0 (max_attempts cfg)"
    by (rule retry_with_backoff_facts(1) [OF Pair])
  have b: "\<forall>k e. k < calls tr \<and> func !! k = Inl e \<and> \<not> retryable_exceptions cfg e \<longrightarrow>
               Suc k = calls tr \<and> out = Inl e"
    using retry_with_backoff_facts(2) [OF Pair] by blast
  note c = retry_with_backoff_facts(3) [OF Pair]
  show ?thesis
    unfolding Pair prod.case using a b c by blast
qed

lemma retry_flaky3:
  "retry_with_backoff flaky3 (Some net3) True (sconst (1 / 2)) =
   (Inl (RetryExhaustedError ''Function failed after 3 attempts'' (Some (OSError ''c''))),
    \<lparr>calls = 3, observed = [(1, OSError ''a'', 1), (2, OSError ''b'', 2)], slept = [1, 2]\<rparr>)"
  by (simp add: retry_with_backoff_def net3_def NETWORK_RETRY_def upto.simps no_trace_def
      calculate_delay_def float_pow_def float_overflow_def uniform_def str_int_def str_nat.simps
      digit_char_def Let_def flaky3_def)

lemma retry_fatal2:
  "retry_with_backoff fatal2 (Some net3) True (sconst (1 / 2)) =
   (Inl (YouTubeError ''x''), \<lparr>calls = 2, observed = [(1, OSError ''a'', 1)], slept = [1]\<rparr>)"
  by (simp add: retry_with_backoff_def net3_def NETWORK_RETRY_def upto.simps no_trace_def
      calculate_delay_def float_pow_def float_overflow_def uniform_def str_int_def str_nat.simps
      digit_char_def Let_def fatal2_def)

lemma retry_with_backoff_outcomes_sample:
  "(1 < (2 :: nat) \<and> fatal2 !! 1 = Inl (YouTubeError ''x'') \<and>
    \<not> retryable_exceptions net3 (YouTubeError ''x'') \<and>
    calls (snd (retry_with_backoff fatal2 (Some net3) True (sconst (1 / 2)))) = Suc 1 \<and>
    fst (retry_with_backoff fatal2 (Some net3) True (sconst (1 / 2))) = Inl (YouTubeError ''x'')) \<and>
   (1 \<le> max_attempts net3 \<and>
    int (calls (snd (retry_with_backoff flaky3 (Some net3) True (sconst (1 / 2))))) = max_attempts net3 \<and>
    flaky3 !! 0 = Inl (OSError ''a'') \<and> flaky3 !! 1 = Inl (OSError ''b'') \<and>
    flaky3 !! 2 = Inl (OSError ''c'') \<and> retryable_exceptions net3 (OSError ''a'') \<and>
    retryable_exceptions net3 (OSError ''b'') \<and> retryable_exceptions net3 (OSError ''c'') \<and>
    (\<exists>e. flaky3 !! 2 = Inl e \<and>
         fst (retry_with_backoff flaky3 (Some net3) True (sconst (1 / 2))) =
           Inl (RetryExhaustedError ''Function failed after 3 attempts'' (Some e))))"
proof -
  have f1: "fatal2 !! 1 = Inl (YouTubeError ''x'')"
    by (simp add: fatal2_def)
  have f2: "\<not> retryable_exceptions net3 (YouTubeError ''x'')"
    by (simp add: net3_def NETWORK_RETRY_def)
  have g1: "1 \<le> max_attempts net3" "max_attempts net3 = 3"
    by (simp_all add: net3_def)
  have g2: "\<forall>j < 3. \<exists>e. flaky3 !! j = Inl e \<and> retryable_exceptions net3 e"
    by (auto simp: less_Suc_eq numeral_3_eq_3 flaky3_def net3_def NETWORK_RETRY_def)
  from retry_with_backoff_outcomes [where func = fatal2 and cfg = net3 and obs = True and rnd = "sconst (1 / 2)"] f1 f2
  have a: "calls (snd (retry_with_backoff fatal2 (Some net3) True (sconst (1 / 2)))) = Suc 1 \<and>
    fst (retry_with_backoff fatal2 (Some net3) True (sconst (1 / 2))) = Inl (YouTubeError ''x'')"
    unfolding retry_fatal2 by simp
  from retry_with_backoff_outcomes [where func = flaky3 and cfg = net3 and obs = True and rnd = "sconst (1 / 2)"] g1 g2
  have b: "\<exists>e. flaky3 !! 2 = Inl e \<and>
         fst (retry_with_backoff flaky3 (Some net3) True (sconst (1 / 2))) =
           Inl (RetryExhaustedError ''Function failed after 3 attempts'' (Some e))"
    unfolding retry_flaky3 by (simp add: str_int_def str_nat.simps digit_char_def)
  have g3: "flaky3 !! 0 = Inl (OSError ''a'')" "flaky3 !! 1 = Inl (OSError ''b'')"
    "flaky3 !! 2 = Inl (OSError ''c'')" "retryable_exceptions net3 (OSError ''a'')"
    "retryable_exceptions net3 (OSError ''b'')" "retryable_exceptions net3 (OSError ''c'')"
    by (simp_all add: flaky3_def net3_def NETWORK_RETRY_def eval_nat_numeral)
  from f1 f2 g1 g3 a b show ?thesis
    by (simp add: retry_flaky3)
qed

text \<open>
  Claim C6. With \<^verbatim>\<open>max_attempts=4\<close>, \<^verbatim>\<open>exponential_base=1e200\<close> and the network
  errors retryable, an operation that fails with \<^verbatim>\<open>OSError\<close> at every invocation
  does not end in \<^verbatim>\<open>RetryExhaustedError\<close>: after the third failure the executor asks
  for the delay of the attempt 2, the power \<^verbatim>\<open>1e200 ** 2\<close> raises
  \<^verbatim>\<open>OverflowError\<close> inside the handler, and that exception leaves
  \<^verbatim>\<open>retry_with_backoff\<close> after three invocations, the fourth never made and the last
  failure of the operation lost.
\<close>

theorem retry_with_backoff_overflow:
  "max_attempts big_base = 4 \<and>
   (\<forall>k. always_OSError !! k = Inl (OSError ''down'')) \<and>
   retryable_exceptions big_base (OSError ''down'') \<and>
   retry_with_backoff always_OSError (Some big_base) False (sconst (1 / 2)) =
     (Inl (OverflowError ''Numerical result out of range''),
      \<lparr>calls = 3, observed = [], slept = [1, 60]\<rparr>)"
proof -
  have "retry_with_backoff always_OSError (Some big_base) False (sconst (1 / 2)) =
     (Inl (OverflowError ''Numerical result out of range''),
      \<lparr>calls = 3, observed = [], slept = [1, 60]\<rparr>)"
    by (simp add: retry_with_backoff_def big_base_def NETWORK_RETRY_def upto.simps no_trace_def
        calculate_delay_def float_pow_def float_overflow_def uniform_def Let_def always_OSError_def)
  then show ?thesis
    by (simp add: big_base_def NETWORK_RETRY_def always_OSError_def)
qed

section \<open>Properties of the liveness checks\<close>

lemma youtube_delay_ok: "0 \<le> a \<Longrightarrow> a \<le> 1 \<Longrightarrow> \<exists>d. calculate_delay u a YOUTUBE_RETRY = Inr d"
proof -
  assume "0 \<le> a" "a \<le> 1"
  then have "a = 0 \<or> a = 1" by auto
  then show ?thesis
    by (auto simp: calculate_delay_def float_pow_def float_overflow_def YOUTUBE_RETRY_def Let_def)
qed

lemma youtube_retry_outcome:
  "\<exists>tr. (\<exists>v. retry_with_backoff func (Some YOUTUBE_RETRY) obs rnd = (Inr v, tr)) \<or>
        (\<exists>m l. retry_with_backoff func (Some YOUTUBE_RETRY) obs rnd = (Inl (RetryExhaustedError m l), tr))"
proof -
  have m: "max_attempts YOUTUBE_RETRY = 3" "retryable_exceptions YOUTUBE_RETRY = (\<lambda>e. True)"
    "jitter YOUTUBE_RETRY"
    by (simp_all add: YOUTUBE_RETRY_def)
  have atts: "[0..max_attempts YOUTUBE_RETRY - 1] = [0, 1, 2]"
    by (simp add: m upto.simps)
  obtain d0 where d0: "calculate_delay (shd rnd) 0 YOUTUBE_RETRY = Inr d0"
    using youtube_delay_ok [of 0] by auto
  obtain d1 where d1: "calculate_delay (shd (stl rnd)) 1 YOUTUBE_RETRY = Inr d1"
    using youtube_delay_ok [of 1] by auto
  show ?thesis
    unfolding retry_with_backoff_def option.case Let_def atts
    by (cases "shd func"; cases "shd (stl func)"; cases "shd (stl (stl func))")
       (simp_all add: m d0 d1 Let_def)
qed

lemma get_video_info_raises_YouTubeError:
  "fst (get_video_info url b f w) = Inl e \<Longrightarrow> \<exists>m. e = YouTubeError m"
proof -
  assume a: "fst (get_video_info url b f w) = Inl e"
  from youtube_retry_outcome [of "smap (\<lambda>run. fetch_video_info run (yt_json_loads w) url b f) (yt_run w)" True "yt_random w"]
  obtain tr where "(\<exists>v. retry_with_backoff (smap (\<lambda>run. fetch_video_info run (yt_json_loads w) url b f) (yt_run w)) (Some YOUTUBE_RETRY) True (yt_random w) = (Inr v, tr)) \<or>
        (\<exists>m l. retry_with_backoff (smap (\<lambda>run. fetch_video_info run (yt_json_loads w) url b f) (yt_run w)) (Some YOUTUBE_RETRY) True (yt_random w) = (Inl (RetryExhaustedError m l), tr))"
    by blast
  with a show ?thesis
    by (auto simp: get_video_info_def Let_def)
qed

text \<open>
  \<^verbatim>\<open>check_live_status\<close> returns a \<^verbatim>\<open>LiveStatus\<close> or raises the
  \<^verbatim>\<open>AttributeError\<close> of a document that is no object.
\<close>

lemma check_live_status_outcome:
  "(\<exists>s. fst (check_live_status vid b f w) = Inr s) \<or> fst (check_live_status vid b f w) = Inl no_get"
proof (cases "fst (get_video_info (''https://www.youtube.com/watch?v='' @ vid) b f w)")
  case (Inl e)
  from get_video_info_raises_YouTubeError [OF Inl] Inl show ?thesis
    by (auto simp: check_live_status_def Let_def split: prod.splits sum.splits)
next
  case (Inr doc)
  then show ?thesis
    by (cases doc) (auto simp: check_live_status_def Let_def split: prod.splits sum.splits)
qed

text \<open>
  Claim C10. No \<^verbatim>\<open>YouTubeError\<close> leaves \<^verbatim>\<open>check_live_status\<close>: an exception that
  it raises is of another class. When \<^verbatim>\<open>get_video_info\<close> raises a
  \<^verbatim>\<open>YouTubeError\<close>, whatever the video id, the result is
  \<^verbatim>\<open>LiveStatus(is_live=False)\<close> with no video id, title or channel name. On the same
  failure \<^verbatim>\<open>get_channel_live_status\<close> raises a \<^verbatim>\<open>YouTubeError\<close> again.
\<close>

theorem check_live_status_swallows_YouTubeError:
  "(\<forall>e'. fst (check_live_status vid b f w) = Inl e' \<longrightarrow> \<not> is_YouTubeError e') \<and>
   (fst (get_video_info (''https://www.youtube.com/watch?v='' @ vid) b f w) = Inl e \<and> is_YouTubeError e \<longrightarrow>
      fst (check_live_status vid b f w) =
        Inr \<lparr>is_live = False, video_id = None, title = None, channel_name = None\<rparr>) \<and>
   (cid \<noteq> [] \<and>
    fst (get_video_info (''https://www.youtube.com/channel/'' @ cid @ ''/live'') b f w) = Inl e \<and>
    is_YouTubeError e \<longrightarrow>
      (\<exists>e'. fst (get_channel_live_status cid b f w) = Inl e' \<and> is_YouTubeError e'))"
proof (intro conjI impI allI)
  fix e'
  assume "fst (check_live_status vid b f w) = Inl e'"
  with check_live_status_outcome [of vid b f w] have "e' = no_get"
    by auto
  then show "\<not> is_YouTubeError e'"
    by (simp add: no_get_def)
next
  assume "fst (get_video_info (''https://www.youtube.com/watch?v='' @ vid) b f w) = Inl e \<and> is_YouTubeError e"
  then show "fst (check_live_status vid b f w) =
        Inr \<lparr>is_live = False, video_id = None, title = None, channel_name = None\<rparr>"
    by (auto simp: check_live_status_def Let_def split: prod.splits sum.splits)
next
  assume "cid \<noteq> [] \<and>
    fst (get_video_info (''https://www.youtube.com/channel/'' @ cid @ ''/live'') b f w) = Inl e \<and>
    is_YouTubeError e"
  then show "\<exists>e'. fst (get_channel_live_status cid b f w) = Inl e' \<and> is_YouTubeError e'"
    by (auto simp: get_channel_live_status_def Let_def split: prod.splits sum.splits)
qed

theorem check_live_status_swallows_YouTubeError_witness:
  "fst (check_live_status ''abc'' None None null_yt) = Inl no_get \<and> \<not> is_YouTubeError no_get \<and>
   fst (get_video_info ''https://www.youtube.com/watch?v=abc'' None None failing_yt) =
     Inl (YouTubeError ''Failed to fetch video info after retries: yt-dlp failed: ERROR: Video unavailable'') \<and>
   is_YouTubeError (YouTubeError ''Failed to fetch video info after retries: yt-dlp failed: ERROR: Video unavailable'') \<and>
   fst (check_live_status ''abc'' None None failing_yt) =
     Inr \<lparr>is_live = False, video_id = None, title = None, channel_name = None\<rparr> \<and>
   ''UCabc'' \<noteq> [] \<and>
   fst (get_video_info ''https://www.youtube.com/channel/UCabc/live'' None None failing_yt) =
     Inl (YouTubeError ''Failed to fetch video info after retries: yt-dlp failed: ERROR: Video unavailable'') \<and>
   (\<exists>e'. fst (get_channel_live_status ''UCabc'' None None failing_yt) = Inl e' \<and> is_YouTubeError e')"
proof -
  let ?e = "YouTubeError ''Failed to fetch video info after retries: yt-dlp failed: ERROR: Video unavailable''"
  have g: "fst (get_video_info url None None failing_yt) = Inl ?e" for url
    by (simp add: get_video_info_def failing_yt_def retry_with_backoff_def YOUTUBE_RETRY_def
        upto.simps no_trace_def calculate_delay_def float_pow_def float_overflow_def uniform_def
        str_int_def str_nat.simps digit_char_def Let_def fetch_video_info_def cookie_args_def
        str_opt_exn_def)
  have y: "is_YouTubeError ?e" by simp
  have n: "''UCabc'' \<noteq> []" by simp
  note inst = check_live_status_swallows_YouTubeError
    [where vid = "''abc''" and cid = "''UCabc''" and b = None and f = None and w = failing_yt and e = ?e]
  from inst g [of "''https://www.youtube.com/watch?v='' @ ''abc''"] y
  have a: "fst (check_live_status ''abc'' None None failing_yt) =
     Inr \<lparr>is_live = False, video_id = None, title = None, channel_name = None\<rparr>"
    by blast
  from inst g [of "''https://www.youtube.com/channel/'' @ ''UCabc'' @ ''/live''"] y n
  have b: "\<exists>e'. fst (get_channel_live_status ''UCabc'' None None failing_yt) = Inl e' \<and> is_YouTubeError e'"
    by blast
  have c: "fst (check_live_status ''abc'' None None null_yt) = Inl no_get"
    by (simp add: check_live_status_def get_video_info_def null_yt_def retry_with_backoff_def
        YOUTUBE_RETRY_def upto.simps no_trace_def Let_def fetch_video_info_def cookie_args_def)
  from check_live_status_swallows_YouTubeError
    [where vid = "''abc''" and b = None and f = None and w = null_yt] c
  have d: "\<not> is_YouTubeError no_get"
    by blast
  from g [of "''https://www.youtube.com/watch?v=abc''"]
    g [of "''https://www.youtube.com/channel/UCabc/live''"] y n a b c d
  show ?thesis by blast
qed


section \<open>Properties of the recording session\<close>

lemma start_recording_owns:
  "start_recording url nm os r = (Inr f, r', os') \<Longrightarrow> p_process r' \<noteq> None"
  by (auto simp: start_recording_def Let_def split: if_splits prod.splits bool.splits sum.splits)

lemma check_disk_space_ok:
  "disk_ok (shd (os_disk_usage os)) \<Longrightarrow>
   check_disk_space 500 os = (True, os\<lparr>os_disk_usage := stl (os_disk_usage os)\<rparr>)"
  by (auto simp: check_disk_space_def disk_ok_def Let_def split: sum.splits)

lemma start_recording_launches:
  assumes "p_process r = None" "disk_ok (shd (os_disk_usage os))"
    "\<And>cmd. shd (os_popen os) cmd = Inr (g cmd)"
  shows "\<exists>r' os' f cmd. start_recording url nm os r = (Inr f, r', os') \<and>
           p_process r' = Some (g cmd) \<and> p_temp_file r' \<noteq> None \<and>
           p_current_file r' \<noteq> None \<and>
           p_reconnect_count r' = p_reconnect_count r \<and>
           p_recording_parts r' = p_recording_parts r \<and>
           os_disk_usage os' = stl (os_disk_usage os) \<and> os_popen os' = stl (os_popen os) \<and>
           os_exists os' = os_exists os"
  using assms
  by (simp add: start_recording_def check_disk_space_ok Let_def) blast

lemma stop_recording_owned:
  assumes "p_process r = Some p" "p_temp_file r \<noteq> None" "p_current_file r \<noteq> None"
  shows "\<exists>part r' os'. stop_recording os r = (part, r', os') \<and>
           p_process r' = None \<and> p_reconnect_count r' = p_reconnect_count r \<and>
           p_recording_parts r' = p_recording_parts r \<and>
           (part \<noteq> None \<longleftrightarrow> shd (os_exists os)) \<and>
           os_disk_usage os' = os_disk_usage os \<and> os_popen os' = os_popen os \<and>
           os_exists os' = stl (os_exists os)"
proof -
  from assms(2) obtain t where t: "p_temp_file r = Some t" by auto
  from assms(3) obtain c where c: "p_current_file r = Some c" by auto
  show ?thesis
    using assms(1) t c
    by (cases "shd (os_rename os)")
       (auto simp: stop_recording_def get_recording_duration_def Let_def)
qed

lemma start_recording_parts:
  "start_recording url nm os r = (res, r', os') \<Longrightarrow> p_recording_parts r' = p_recording_parts r"
  by (auto simp: start_recording_def check_disk_space_def Let_def
      split: if_splits sum.splits prod.splits bool.splits)

lemma stop_recording_stops:
  "stop_recording os r = (part, r', os') \<Longrightarrow>
   p_process r' = None \<and> p_recording_parts r' = p_recording_parts r"
  by (auto simp: stop_recording_def Let_def split: option.splits if_splits)

text \<open>
  Claim C7. \<^verbatim>\<open>start_recording\<close> on a recorder that owns a process handle raises
  \<^verbatim>\<open>RecordingError("Already recording")\<close>, and neither the recorder (handle, paths,
  start time, every other field) nor the environment is changed by the call. So, after a
  start that succeeded, a second start without a stop in between fails in this way and
  leaves the first session as it was.
\<close>

theorem start_recording_already_recording:
  "(p_process r \<noteq> None \<longrightarrow>
      start_recording stream_url chan_name w r =
        (Inl (RecordingError ''Already recording''), r, w)) \<and>
   (start_recording url1 nm1 w0 r0 = (Inr f, r1, w1) \<longrightarrow>
      start_recording url2 nm2 w1 r1 = (Inl (RecordingError ''Already recording''), r1, w1))"
proof (intro conjI impI)
  assume "p_process r \<noteq> None"
  then show "start_recording stream_url chan_name w r =
        (Inl (RecordingError ''Already recording''), r, w)"
    by (simp add: start_recording_def)
next
  assume "start_recording url1 nm1 w0 r0 = (Inr f, r1, w1)"
  then have "p_process r1 \<noteq> None"
    by (rule start_recording_owns)
  then show "start_recording url2 nm2 w1 r1 = (Inl (RecordingError ''Already recording''), r1, w1)"
    by (simp add: start_recording_def)
qed

theorem start_recording_already_recording_witness:
  "p_process busy_recorder \<noteq> None \<and>
   start_recording ''https://example.org/live.m3u8'' ''Chan'' sample_os busy_recorder =
     (Inl (RecordingError ''Already recording''), busy_recorder, sample_os) \<and>
   (\<exists>f r1 w1.
      start_recording ''https://example.org/live.m3u8'' ''Chan'' sample_os idle_recorder =
        (Inr f, r1, w1) \<and>
      start_recording ''https://example.org/other.m3u8'' ''Chan'' w1 r1 =
        (Inl (RecordingError ''Already recording''), r1, w1))"
proof -
  let ?s = "start_recording ''https://example.org/live.m3u8'' ''Chan'' sample_os idle_recorder"
  have busy: "p_process busy_recorder \<noteq> None"
    by (simp add: busy_recorder_def)
  have "\<exists>f. ?s = (Inr f, fst (snd ?s), snd (snd ?s))"
    by (simp add: start_recording_def check_disk_space_def new_StreamRecorder_def
        idle_recorder_def sample_os_def Let_def)
  then obtain f where first: "?s = (Inr f, fst (snd ?s), snd (snd ?s))"
    by blast
  note inst = start_recording_already_recording
    [where r = busy_recorder and w = sample_os and ?r0.0 = idle_recorder and ?w0.0 = sample_os
       and ?url1.0 = "''https://example.org/live.m3u8''" and ?nm1.0 = "''Chan''" and f = f
       and ?r1.0 = "fst (snd ?s)" and ?w1.0 = "snd (snd ?s)"]
  from inst busy first show ?thesis
    by blast
qed

text \<open>
  Claim C8. \<^verbatim>\<open>stop_recording\<close> on a recorder that owns no process returns
  \<^verbatim>\<open>None\<close> and changes nothing, however many times in a row it is called.
\<close>

theorem stop_recording_idle_noop:
  "p_process r = None \<Longrightarrow>
   stop_recording w r = (None, r, w) \<and>
   ((\<lambda>(res :: string option, r', w'). stop_recording w' r') ^^ n) (None, r, w) = (None, r, w)"
proof -
  assume idle: "p_process r = None"
  then have once: "stop_recording w r = (None, r, w)"
    by (simp add: stop_recording_def)
  have "((\<lambda>(res :: string option, r', w'). stop_recording w' r') ^^ n) (None, r, w) = (None, r, w)"
    by (induction n) (simp_all add: once)
  with once show ?thesis by simp
qed


theorem stop_recording_idle_noop_witness:
  "p_process idle_recorder = None \<and>
   stop_recording sample_os idle_recorder = (None, idle_recorder, sample_os) \<and>
   ((\<lambda>(res :: string option, r', w'). stop_recording w' r') ^^ 3) (None, idle_recorder, sample_os) =
     (None, idle_recorder, sample_os)"
proof -
  have idle: "p_process idle_recorder = None"
    by (simp add: idle_recorder_def new_StreamRecorder_def)
  from stop_recording_idle_noop [OF idle, of sample_os 3] idle show ?thesis
    by simp
qed


section \<open>Properties of the reconnect loop\<close>

lemma monitor_recording_exits:
  "p_process r = Some (Process i (Some n)) \<Longrightarrow>
   rw_check_is_live w = replicate n (Inr True) @- rest \<Longrightarrow>
   monitor_recording r w =
     Some (None, r\<lparr>p_process := Some (Process i (Some 0))\<rparr>, w\<lparr>rw_check_is_live := rest\<rparr>)"
proof (induction n arbitrary: r w)
  case 0
  then show ?case
    by (subst monitor_recording.simps) (simp add: is_recording_def)
next
  case (Suc n)
  let ?r = "r\<lparr>p_process := Some (Process i (Some n))\<rparr>"
  let ?w = "w\<lparr>rw_check_is_live := replicate n (Inr True) @- rest\<rparr>"
  have "monitor_recording r w = monitor_recording ?r ?w"
    using Suc.prems by (subst monitor_recording.simps) (simp add: is_recording_def)
  also have "\<dots> = Some (None, ?r\<lparr>p_process := Some (Process i (Some 0))\<rparr>,
                       ?w\<lparr>rw_check_is_live := rest\<rparr>)"
    by (rule Suc.IH) simp_all
  finally show ?case by simp
qed

lemma monitor_recording_offline:
  "p_process r = Some p \<Longrightarrow> rw_check_is_live w = sconst (Inr False) \<Longrightarrow>
   \<exists>p'. monitor_recording r w = Some (None, r\<lparr>p_process := Some p'\<rparr>, w)"
proof -
  assume a: "p_process r = Some p" "rw_check_is_live w = sconst (Inr False)"
  then have "w\<lparr>rw_check_is_live := sconst (Inr False)\<rparr> = w"
    by (cases w) simp
  with a show ?thesis
    by (subst monitor_recording.simps)
       (cases "poll p", auto simp: is_recording_def)
qed

lemma start_segment_launches:
  assumes "p_process r = None" "disk_ok (shd (os_disk_usage (rw_os w)))"
    "\<And>cmd. shd (os_popen (rw_os w)) cmd = Inr (g cmd)"
    "p_reconnect_count r \<noteq> 0 \<longrightarrow> (\<exists>u. shd (rw_get_stream_url w) = Inr u)"
  shows "\<exists>r' w' cmd. start_segment url nm r w = (None, r', w') \<and>
           p_process r' = Some (g cmd) \<and> p_temp_file r' \<noteq> None \<and> p_current_file r' \<noteq> None \<and>
           p_reconnect_count r' = p_reconnect_count r \<and>
           p_recording_parts r' = p_recording_parts r \<and>
           os_disk_usage (rw_os w') = stl (os_disk_usage (rw_os w)) \<and>
           os_popen (rw_os w') = stl (os_popen (rw_os w)) \<and>
           os_exists (rw_os w') = os_exists (rw_os w) \<and>
           rw_check_is_live w' = rw_check_is_live w \<and>
           rw_get_stream_url w' =
             (if p_reconnect_count r = 0 then rw_get_stream_url w else stl (rw_get_stream_url w))"
proof (cases "p_reconnect_count r = 0")
  case True
  from start_recording_launches [OF assms(1-3), of url nm] True show ?thesis
    by (auto simp: start_segment_def)
next
  case False
  with assms(4) obtain u where u: "shd (rw_get_stream_url w) = Inr u" by auto
  from start_recording_launches [OF assms(1-3), of u "nm @ ''_reconnect'' @ str_int (p_reconnect_count r)"]
    False u show ?thesis
    by (auto simp: start_segment_def Let_def)
qed

lemma finish_segment_owned:
  assumes "p_process r = Some p" "p_temp_file r \<noteq> None" "p_current_file r \<noteq> None"
    "shd (rw_check_is_live w) = Inr live"
  shows "\<exists>r' w'. finish_segment mx r w = (Inr (live \<and> p_reconnect_count r < mx), r', w') \<and>
           p_process r' = None \<and>
           p_reconnect_count r' =
             (if live \<and> p_reconnect_count r < mx then p_reconnect_count r + 1 else p_reconnect_count r) \<and>
           length (p_recording_parts r') =
             length (p_recording_parts r) + (if shd (os_exists (rw_os w)) then 1 else 0) \<and>
           os_disk_usage (rw_os w') = os_disk_usage (rw_os w) \<and>
           os_popen (rw_os w') = os_popen (rw_os w) \<and>
           os_exists (rw_os w') = stl (os_exists (rw_os w)) \<and>
           rw_check_is_live w' = stl (rw_check_is_live w) \<and>
           rw_get_stream_url w' = rw_get_stream_url w"
proof -
  from stop_recording_owned [OF assms(1-3), of "rw_os w"]
  obtain part r1 os1 where s: "stop_recording (rw_os w) r = (part, r1, os1)"
    "p_process r1 = None" "p_reconnect_count r1 = p_reconnect_count r"
    "p_recording_parts r1 = p_recording_parts r" "part \<noteq> None \<longleftrightarrow> shd (os_exists (rw_os w))"
    "os_disk_usage os1 = os_disk_usage (rw_os w)" "os_popen os1 = os_popen (rw_os w)"
    "os_exists os1 = stl (os_exists (rw_os w))"
    by blast
  show ?thesis
    using s assms(4) by (cases part) (auto simp: finish_segment_def Let_def)
qed


lemma replicate_Suc_shift: "replicate (Suc n) x @- s = replicate n x @- (x ## s)"
  by (induction n) simp_all

lemma loop_live_iteration:
  assumes idle: "p_process r = None" and cnt: "p_reconnect_count r < mx"
    and disk: "disk_ok (shd (os_disk_usage (rw_os w)))"
    and popen: "\<And>cmd. shd (os_popen (rw_os w)) cmd = Inr (g cmd)"
    and exits: "\<And>cmd. polls_alive (g cmd) = Some n"
    and url: "p_reconnect_count r \<noteq> 0 \<longrightarrow> (\<exists>u. shd (rw_get_stream_url w) = Inr u)"
    and live: "rw_check_is_live w = replicate (Suc n) (Inr True) @- rest"
  shows "\<exists>r' w'. reconnect_loop url nm mx r w = reconnect_loop url nm mx r' w' \<and>
           p_process r' = None \<and> p_reconnect_count r' = p_reconnect_count r + 1 \<and>
           length (p_recording_parts r') =
             length (p_recording_parts r) + (if shd (os_exists (rw_os w)) then 1 else 0) \<and>
           os_disk_usage (rw_os w') = stl (os_disk_usage (rw_os w)) \<and>
           os_popen (rw_os w') = stl (os_popen (rw_os w)) \<and>
           os_exists (rw_os w') = stl (os_exists (rw_os w)) \<and>
           rw_check_is_live w' = rest \<and>
           rw_get_stream_url w' =
             (if p_reconnect_count r = 0 then rw_get_stream_url w else stl (rw_get_stream_url w))"
proof -
  from start_segment_launches [OF idle disk popen url, of url nm]
  obtain r1 w1 cmd where s1: "start_segment url nm r w = (None, r1, w1)"
    "p_process r1 = Some (g cmd)" "p_temp_file r1 \<noteq> None" "p_current_file r1 \<noteq> None"
    "p_reconnect_count r1 = p_reconnect_count r" "p_recording_parts r1 = p_recording_parts r"
    "os_disk_usage (rw_os w1) = stl (os_disk_usage (rw_os w))"
    "os_popen (rw_os w1) = stl (os_popen (rw_os w))"
    "os_exists (rw_os w1) = os_exists (rw_os w)"
    "rw_check_is_live w1 = rw_check_is_live w"
    "rw_get_stream_url w1 =
       (if p_reconnect_count r = 0 then rw_get_stream_url w else stl (rw_get_stream_url w))"
    by blast
  from exits [of cmd] obtain i where g: "g cmd = Process i (Some n)"
    by (cases "g cmd") simp
  let ?r2 = "r1\<lparr>p_process := Some (Process i (Some 0))\<rparr>"
  let ?w2 = "w1\<lparr>rw_check_is_live := Inr True ## rest\<rparr>"
  have m: "monitor_recording r1 w1 = Some (None, ?r2, ?w2)"
    by (rule monitor_recording_exits) (simp_all add: s1 g live replicate_Suc_shift del: replicate.simps)
  from finish_segment_owned [of ?r2 "Process i (Some 0)" ?w2 True mx] s1
  obtain r3 w3 where f: "finish_segment mx ?r2 ?w2 = (Inr (p_reconnect_count r < mx), r3, w3)"
    "p_process r3 = None"
    "p_reconnect_count r3 = (if p_reconnect_count r < mx then p_reconnect_count r + 1 else p_reconnect_count r)"
    "length (p_recording_parts r3) =
       length (p_recording_parts r) + (if shd (os_exists (rw_os w)) then 1 else 0)"
    "os_disk_usage (rw_os w3) = stl (os_disk_usage (rw_os w))"
    "os_popen (rw_os w3) = stl (os_popen (rw_os w))"
    "os_exists (rw_os w3) = stl (os_exists (rw_os w))"
    "rw_check_is_live w3 = rest"
    "rw_get_stream_url w3 =
       (if p_reconnect_count r = 0 then rw_get_stream_url w else stl (rw_get_stream_url w))"
    by auto
  have "reconnect_loop url nm mx r w = reconnect_loop url nm mx r3 w3"
    using cnt by (subst reconnect_loop.simps) (simp add: try_segment_def s1 m f)
  with f cnt show ?thesis
    by (intro exI [of _ r3] exI [of _ w3]) simp
qed

lemma loop_offline_iteration:
  assumes idle: "p_process r = None" and cnt: "p_reconnect_count r \<le> mx"
    and disk: "disk_ok (shd (os_disk_usage (rw_os w)))"
    and popen: "\<And>cmd. shd (os_popen (rw_os w)) cmd = Inr (g cmd)"
    and url: "p_reconnect_count r \<noteq> 0 \<longrightarrow> (\<exists>u. shd (rw_get_stream_url w) = Inr u)"
    and live: "rw_check_is_live w = sconst (Inr False)"
  shows "\<exists>r' w'. reconnect_loop url nm mx r w = Some (r', w') \<and>
           p_process r' = None \<and> p_reconnect_count r' = p_reconnect_count r \<and>
           length (p_recording_parts r') =
             length (p_recording_parts r) + (if shd (os_exists (rw_os w)) then 1 else 0) \<and>
           os_popen (rw_os w') = stl (os_popen (rw_os w))"
proof -
  from start_segment_launches [OF idle disk popen url, of url nm]
  obtain r1 w1 cmd where s1: "start_segment url nm r w = (None, r1, w1)"
    "p_process r1 = Some (g cmd)" "p_temp_file r1 \<noteq> None" "p_current_file r1 \<noteq> None"
    "p_reconnect_count r1 = p_reconnect_count r" "p_recording_parts r1 = p_recording_parts r"
    "os_popen (rw_os w1) = stl (os_popen (rw_os w))"
    "os_exists (rw_os w1) = os_exists (rw_os w)"
    "rw_check_is_live w1 = rw_check_is_live w"
    by blast
  from monitor_recording_offline [of r1 "g cmd" w1] s1 live
  obtain p' where m: "monitor_recording r1 w1 = Some (None, r1\<lparr>p_process := Some p'\<rparr>, w1)"
    by auto
  from finish_segment_owned [of "r1\<lparr>p_process := Some p'\<rparr>" p' w1 False mx] s1 live
  obtain r3 w3 where f: "finish_segment mx (r1\<lparr>p_process := Some p'\<rparr>) w1 = (Inr False, r3, w3)"
    "p_process r3 = None" "p_reconnect_count r3 = p_reconnect_count r"
    "length (p_recording_parts r3) =
       length (p_recording_parts r) + (if shd (os_exists (rw_os w)) then 1 else 0)"
    "os_popen (rw_os w3) = stl (os_popen (rw_os w))"
    by auto
  have "reconnect_loop url nm mx r w = Some (r3, w3)"
    using cnt by (subst reconnect_loop.simps) (simp add: try_segment_def s1 m f)
  with f show ?thesis
    by (intro exI [of _ r3] exI [of _ w3]) simp
qed


lemma launches_nth:
  assumes "launches n os" "k < n"
  shows "disk_ok (os_disk_usage os !! k)"
    and "\<exists>g. \<forall>cmd. (os_popen os !! k) cmd = Inr (g cmd)"
proof -
  from assms show "disk_ok (os_disk_usage os !! k)"
    by (simp add: launches_def)
  from assms have "\<forall>cmd. \<exists>p. (os_popen os !! k) cmd = Inr p"
    by (simp add: launches_def)
  then show "\<exists>g. \<forall>cmd. (os_popen os !! k) cmd = Inr (g cmd)"
    by (rule choice)
qed

lemma reconnect_three_cycles:
  assumes idle: "p_process r = None"
    and os: "launches 4 (rw_os w)"
    and exits: "\<forall>k<3. \<forall>cmd p. (os_popen (rw_os w) !! k) cmd = Inr p \<longrightarrow> polls_alive p = Some (n k)"
    and urls: "\<forall>k<3. \<exists>u. rw_get_stream_url w !! k = Inr u"
    and live: "rw_check_is_live w =
                 replicate (Suc (n 0)) (Inr True) @- replicate (Suc (n 1)) (Inr True) @-
                 replicate (Suc (n 2)) (Inr True) @- sconst (Inr False)"
  shows "\<exists>parts r' w'.
           record_with_reconnect url nm 5 r w = Some (parts, r', w') \<and>
           p_reconnect_count r' = 3 \<and>
           os_popen (rw_os w') = sdrop 4 (os_popen (rw_os w)) \<and>
           length parts = length (filter id (stake 4 (os_exists (rw_os w))))"
proof -
  let ?D = "os_disk_usage (rw_os w)" and ?P = "os_popen (rw_os w)" and ?E = "os_exists (rw_os w)"
  let ?U = "rw_get_stream_url w"
  let ?L1 = "replicate (Suc (n 1)) (Inr True) @- replicate (Suc (n 2)) (Inr True) @- sconst (Inr False)"
  let ?L2 = "replicate (Suc (n 2)) (Inr True) @- sconst (Inr False)"
  let ?b = "\<lambda>e. if e then 1 else (0 :: nat)"
  let ?r0 = "r\<lparr>p_max_reconnects := 5, p_recording_parts := [], p_reconnect_count := 0\<rparr>"
  have g: "\<exists>g. (\<forall>cmd. (?P !! k) cmd = Inr (g cmd)) \<and> (k < 3 \<longrightarrow> (\<forall>cmd. polls_alive (g cmd) = Some (n k)))"
    if "k < 4" for k
  proof -
    from launches_nth(2) [OF os that] obtain g where "\<forall>cmd. (?P !! k) cmd = Inr (g cmd)" by blast
    with exits show ?thesis by (intro exI [of _ g]) auto
  qed
  have d: "disk_ok (?D !! k)" if "k < 4" for k
    using launches_nth(1) [OF os that] .
  have u: "\<exists>u. ?U !! k = Inr u" if "k < 3" for k
    using urls that by blast
  \<comment> \<open>the first session and the first interruption\<close>
  from g [of 0] obtain g0 where g0: "\<And>cmd. shd ?P cmd = Inr (g0 cmd)"
    "\<And>cmd. polls_alive (g0 cmd) = Some (n 0)" by auto
  from loop_live_iteration [of ?r0 5 w g0 "n 0" ?L1 url nm, OF _ _ _ g0] idle d [of 0] live
  obtain r1 w1 where s1: "reconnect_loop url nm 5 ?r0 w = reconnect_loop url nm 5 r1 w1"
    "p_process r1 = None" "p_reconnect_count r1 = 1"
    "length (p_recording_parts r1) = ?b (shd ?E)"
    "os_disk_usage (rw_os w1) = stl ?D" "os_popen (rw_os w1) = stl ?P"
    "os_exists (rw_os w1) = stl ?E" "rw_check_is_live w1 = ?L1" "rw_get_stream_url w1 = ?U"
    by auto
  \<comment> \<open>the first restart and the second interruption\<close>
  from g [of 1] obtain g1 where g1: "\<And>cmd. shd (os_popen (rw_os w1)) cmd = Inr (g1 cmd)"
    "\<And>cmd. polls_alive (g1 cmd) = Some (n 1)" by (auto simp: s1)
  from loop_live_iteration [of r1 5 w1 g1 "n 1" ?L2 url nm, OF _ _ _ g1] s1 d [of 1] u [of 0]
  obtain r2 w2 where s2: "reconnect_loop url nm 5 r1 w1 = reconnect_loop url nm 5 r2 w2"
    "p_process r2 = None" "p_reconnect_count r2 = 2"
    "length (p_recording_parts r2) = ?b (shd ?E) + ?b (shd (stl ?E))"
    "os_disk_usage (rw_os w2) = stl (stl ?D)" "os_popen (rw_os w2) = stl (stl ?P)"
    "os_exists (rw_os w2) = stl (stl ?E)" "rw_check_is_live w2 = ?L2"
    "rw_get_stream_url w2 = stl ?U"
    by auto
  \<comment> \<open>the second restart and the third interruption\<close>
  from g [of 2] obtain g2 where g2: "\<And>cmd. shd (os_popen (rw_os w2)) cmd = Inr (g2 cmd)"
    "\<And>cmd. polls_alive (g2 cmd) = Some (n 2)" by (auto simp: s2 eval_nat_numeral)
  from loop_live_iteration [of r2 5 w2 g2 "n 2" "sconst (Inr False)" url nm, OF _ _ _ g2]
    s2 d [of 2] u [of 1]
  obtain r3 w3 where s3: "reconnect_loop url nm 5 r2 w2 = reconnect_loop url nm 5 r3 w3"
    "p_process r3 = None" "p_reconnect_count r3 = 3"
    "length (p_recording_parts r3) = ?b (shd ?E) + ?b (shd (stl ?E)) + ?b (shd (stl (stl ?E)))"
    "os_disk_usage (rw_os w3) = stl (stl (stl ?D))" "os_popen (rw_os w3) = stl (stl (stl ?P))"
    "os_exists (rw_os w3) = stl (stl (stl ?E))" "rw_check_is_live w3 = sconst (Inr False)"
    "rw_get_stream_url w3 = stl (stl ?U)"
    by (auto simp: eval_nat_numeral)
  \<comment> \<open>the third restart, on a source that is offline\<close>
  from g [of 3] obtain g3 where g3: "\<And>cmd. shd (os_popen (rw_os w3)) cmd = Inr (g3 cmd)"
    by (auto simp: s3 eval_nat_numeral)
  from loop_offline_iteration [of r3 5 w3 g3 url nm, OF _ _ _ g3] s3 d [of 3] u [of 2]
  obtain r4 w4 where s4: "reconnect_loop url nm 5 r3 w3 = Some (r4, w4)"
    "p_reconnect_count r4 = 3"
    "length (p_recording_parts r4) =
       ?b (shd ?E) + ?b (shd (stl ?E)) + ?b (shd (stl (stl ?E))) + ?b (shd (stl (stl (stl ?E))))"
    "os_popen (rw_os w4) = stl (stl (stl (stl ?P)))"
    by (auto simp: eval_nat_numeral)
  have "record_with_reconnect url nm 5 r w = Some (p_recording_parts r4, r4, w4)"
    by (simp add: record_with_reconnect_def s1(1) s2(1) s3(1) s4(1))
  with s4 show ?thesis
    by (intro exI [of _ "p_recording_parts r4"] exI [of _ r4] exI [of _ w4])
       (simp add: eval_nat_numeral)
qed

text \<open>
  Claim C1, as stated, fails in the sample environment: the source is live at the three
  checks that follow the first three sessions and offline from then on, every session
  leaves a file, and \<^verbatim>\<open>max_reconnects\<close> is 5. The loop ends with the counter at 3,
  and it returns four parts, since the third restart runs a fourth session.
\<close>

theorem reconnect_four_parts_counterexample:
  "map_option (length \<circ> fst)
     (record_with_reconnect ''https://example.org/live.m3u8'' ''Chan'' 5 idle_recorder sample_rworld) =
     Some 4 \<and>
   map_option (p_reconnect_count \<circ> fst \<circ> snd)
     (record_with_reconnect ''https://example.org/live.m3u8'' ''Chan'' 5 idle_recorder sample_rworld) =
     Some 3"
  by (simp add: record_with_reconnect_def reconnect_loop.simps monitor_recording.simps
       try_segment_def start_segment_def finish_segment_def on_error_def is_recording_def
       start_recording_def stop_recording_def check_disk_space_def get_recording_duration_def
       new_StreamRecorder_def idle_recorder_def nofile_rworld_def sample_rworld_def
       sample_os_def Let_def)

text \<open>
  Claim C1, amended. Take an idle recorder, \<^verbatim>\<open>max_reconnects = 5\<close>, and an
  environment in which the next four starts succeed, the first three capture processes
  exit by themselves (after \<open>n 0\<close>, \<open>n 1\<close>, \<open>n 2\<close> probes), the fresh URLs are
  resolved, and \<^verbatim>\<open>check_is_live\<close> reports live at every check made during the first
  three sessions and after each of them, and offline from then on. Then
  \<^verbatim>\<open>record_with_reconnect\<close> returns; the counter of reconnects ends at 3, not 5; four
  sessions have been launched, the first and three restarts; and the list of parts has one
  element for each of these four sessions that left a file, so at most four and exactly
  three only when one session left none.
\<close>

theorem reconnect_three_interruptions:
  assumes "p_process r = None"
    and "launches 4 (rw_os w)"
    and "\<forall>k<3. \<forall>cmd p. (os_popen (rw_os w) !! k) cmd = Inr p \<longrightarrow> polls_alive p = Some (n k)"
    and "\<forall>k<3. \<exists>u. rw_get_stream_url w !! k = Inr u"
    and "rw_check_is_live w =
           replicate (Suc (n 0)) (Inr True) @- replicate (Suc (n 1)) (Inr True) @-
           replicate (Suc (n 2)) (Inr True) @- sconst (Inr False)"
  shows "\<exists>parts r' w'.
           record_with_reconnect url nm 5 r w = Some (parts, r', w') \<and>
           p_reconnect_count r' = 3 \<and>
           os_popen (rw_os w') = sdrop 4 (os_popen (rw_os w)) \<and>
           length parts = length (filter id (stake 4 (os_exists (rw_os w)))) \<and>
           length parts \<le> 4"
proof -
  from reconnect_three_cycles [OF assms, of url nm]
  obtain parts r' w' where res: "record_with_reconnect url nm 5 r w = Some (parts, r', w')"
    "p_reconnect_count r' = 3" "os_popen (rw_os w') = sdrop 4 (os_popen (rw_os w))"
    "length parts = length (filter id (stake 4 (os_exists (rw_os w))))"
    by blast
  have "length (filter id (stake 4 (os_exists (rw_os w)))) \<le> length (stake 4 (os_exists (rw_os w)))"
    by (rule length_filter_le)
  with res show ?thesis by simp
qed

theorem reconnect_three_interruptions_witness:
  "p_process idle_recorder = None \<and> launches 4 (rw_os three_part_rworld) \<and>
   (\<exists>parts r' w'.
      record_with_reconnect ''https://example.org/live.m3u8'' ''Chan'' 5 idle_recorder
        three_part_rworld = Some (parts, r', w') \<and>
      p_reconnect_count r' = 3 \<and> length parts = 3)"
proof -
  have idle: "p_process idle_recorder = None"
    by (simp add: idle_recorder_def new_StreamRecorder_def)
  have os: "launches 4 (rw_os three_part_rworld)"
    by (simp add: launches_def disk_ok_def three_part_rworld_def sample_os_def)
  have exits: "\<forall>k<3. \<forall>cmd p. (os_popen (rw_os three_part_rworld) !! k) cmd = Inr p \<longrightarrow>
      polls_alive p = Some ((\<lambda>k. 2) k)"
    by (auto simp: three_part_rworld_def sample_os_def)
  have urls: "\<forall>k<3. \<exists>u. rw_get_stream_url three_part_rworld !! k = Inr u"
    by (simp add: three_part_rworld_def)
  have live: "rw_check_is_live three_part_rworld =
      replicate (Suc ((\<lambda>k. 2) 0)) (Inr True) @- replicate (Suc ((\<lambda>k. 2) 1)) (Inr True) @-
      replicate (Suc ((\<lambda>k. 2) 2)) (Inr True) @- sconst (Inr False)"
    by (simp add: three_part_rworld_def eval_nat_numeral)
  have "os_exists (rw_os three_part_rworld) = True ## True ## True ## sconst False"
    by (simp add: three_part_rworld_def)
  then have files: "length (filter id (stake 4 (os_exists (rw_os three_part_rworld)))) = 3"
    by (simp add: eval_nat_numeral)
  from reconnect_three_interruptions [OF idle os exits urls live,
      of "''https://example.org/live.m3u8''" "''Chan''"] files idle os
  show ?thesis by auto
qed

lemma is_recording_fields:
  "is_recording r = (b, r') \<Longrightarrow>
   p_recording_parts r' = p_recording_parts r \<and> p_reconnect_count r' = p_reconnect_count r"
  by (auto simp: is_recording_def split: option.splits prod.splits)

lemma monitor_recording_parts:
  assumes "monitor_recording r w = Some res"
  shows "p_recording_parts (fst (snd res)) = p_recording_parts r"
proof (rule monitor_recording.raw_induct
    [where P = "\<lambda>r w res. p_recording_parts (fst (snd res)) = p_recording_parts r", OF _ assms])
  fix mr r w res
  assume IH: "\<And>r w res. mr r w = Some res \<Longrightarrow> p_recording_parts (fst (snd res)) = p_recording_parts r"
    and body: "(case is_recording r of
      (running, r) \<Rightarrow>
        if running
        then case shd (rw_check_is_live w) of
             Inl e \<Rightarrow> Some (Some e, r, w\<lparr>rw_check_is_live := stl (rw_check_is_live w)\<rparr>)
             | Inr live \<Rightarrow>
                 if \<not> live
                 then Some (None, r, w\<lparr>rw_check_is_live := stl (rw_check_is_live w)\<rparr>)
                 else mr r (w\<lparr>rw_check_is_live := stl (rw_check_is_live w)\<rparr>)
        else Some (None, r, w)) = Some res"
  obtain b r1 where i: "is_recording r = (b, r1)" by (cases "is_recording r")
  from is_recording_fields [OF i] have p: "p_recording_parts r1 = p_recording_parts r" by simp
  from body i p IH [of r1 "w\<lparr>rw_check_is_live := stl (rw_check_is_live w)\<rparr>" res]
  show "p_recording_parts (fst (snd res)) = p_recording_parts r"
    by (auto split: if_splits sum.splits)
qed

lemma start_segment_parts:
  "start_segment url nm r w = (res, r', w') \<Longrightarrow> p_recording_parts r' = p_recording_parts r"
  by (auto simp: start_segment_def Let_def dest: start_recording_parts
      split: if_splits sum.splits prod.splits)

text \<open>
  Claim C2, as stated, fails where a session leaves no file: \<^verbatim>\<open>stop_recording\<close>
  returns \<^verbatim>\<open>None\<close> and the guard \<^verbatim>\<open>if part_file\<close> skips the append. In the sample
  environment without files an iteration starts and stops a session and leaves the list
  of parts empty, and so does the whole run of four sessions.
\<close>

theorem iteration_without_file_counterexample:
  "map_option (p_recording_parts \<circ> fst \<circ> snd)
     (try_segment ''https://example.org/live.m3u8'' ''Chan'' 5 idle_recorder nofile_rworld) =
     Some [] \<and>
   map_option (p_process \<circ> fst \<circ> snd)
     (try_segment ''https://example.org/live.m3u8'' ''Chan'' 5 idle_recorder nofile_rworld) =
     Some None \<and>
   map_option fst
     (record_with_reconnect ''https://example.org/live.m3u8'' ''Chan'' 5 idle_recorder nofile_rworld) =
     Some []"
  by (simp add: record_with_reconnect_def reconnect_loop.simps monitor_recording.simps
       try_segment_def start_segment_def finish_segment_def on_error_def is_recording_def
       start_recording_def stop_recording_def check_disk_space_def get_recording_duration_def
       new_StreamRecorder_def idle_recorder_def nofile_rworld_def sample_rworld_def
       sample_os_def Let_def)

text \<open>
  Claim C2, amended. In every iteration in which the start and the inner poll raise
  nothing, the session is stopped (the recorder owns no process afterwards) and the path
  that \<^verbatim>\<open>stop_recording\<close> returns is appended to the list of parts when it returns
  one; when it returns \<^verbatim>\<open>None\<close>, the session having left no file, the list is
  unchanged. The handler of an iteration that raised stops the session as well and
  appends nothing.
\<close>

theorem iteration_stops_and_appends:
  "(start_segment url nm r w = (None, r1, w1) \<and> monitor_recording r1 w1 = Some (None, r2, w2) \<longrightarrow>
      (\<exists>res r' w'. try_segment url nm mx r w = Some (res, r', w') \<and>
         p_process r' = None \<and>
         p_recording_parts r' =
           p_recording_parts r @
           (case fst (stop_recording (rw_os w2) r2) of None \<Rightarrow> [] | Some f \<Rightarrow> [f]))) \<and>
   p_process (fst (snd (on_error mx r w))) = None \<and>
   p_recording_parts (fst (snd (on_error mx r w))) = p_recording_parts r"
proof (intro conjI impI)
  assume a: "start_segment url nm r w = (None, r1, w1) \<and> monitor_recording r1 w1 = Some (None, r2, w2)"
  then have p: "p_recording_parts r2 = p_recording_parts r"
    using start_segment_parts [of url nm r w None r1 w1]
      monitor_recording_parts [of r1 w1 "(None, r2, w2)"] by simp
  obtain part r3 os3 where s: "stop_recording (rw_os w2) r2 = (part, r3, os3)"
    by (cases "stop_recording (rw_os w2) r2")
  from stop_recording_stops [OF s] a p s
  show "\<exists>res r' w'. try_segment url nm mx r w = Some (res, r', w') \<and>
         p_process r' = None \<and>
         p_recording_parts r' =
           p_recording_parts r @
           (case fst (stop_recording (rw_os w2) r2) of None \<Rightarrow> [] | Some f \<Rightarrow> [f])"
    by (cases part; cases "shd (rw_check_is_live w2)")
       (auto simp: try_segment_def finish_segment_def Let_def)
next
  obtain part r3 os3 where s: "stop_recording (rw_os w) r = (part, r3, os3)"
    by (cases "stop_recording (rw_os w) r")
  from stop_recording_stops [OF s] s
  show "p_process (fst (snd (on_error mx r w))) = None"
    "p_recording_parts (fst (snd (on_error mx r w))) = p_recording_parts r"
    by (auto simp: on_error_def)
qed

theorem iteration_stops_and_appends_witness:
  "\<exists>r1 w1 r2 w2.
     start_segment ''https://example.org/live.m3u8'' ''Chan'' idle_recorder sample_rworld =
       (None, r1, w1) \<and>
     monitor_recording r1 w1 = Some (None, r2, w2) \<and>
     (\<exists>res r' w'.
        try_segment ''https://example.org/live.m3u8'' ''Chan'' 5 idle_recorder sample_rworld =
          Some (res, r', w') \<and>
        p_process r' = None \<and>
        p_recording_parts r' =
          p_recording_parts idle_recorder @
          (case fst (stop_recording (rw_os w2) r2) of None \<Rightarrow> [] | Some f \<Rightarrow> [f]))"
proof -
  let ?s = "start_segment ''https://example.org/live.m3u8'' ''Chan'' idle_recorder sample_rworld"
  have st: "?s = (None, fst (snd ?s), snd (snd ?s))"
    by (simp add: start_segment_def start_recording_def check_disk_space_def
        new_StreamRecorder_def idle_recorder_def sample_rworld_def sample_os_def Let_def)
  have "\<exists>r2 w2. monitor_recording (fst (snd ?s)) (snd (snd ?s)) = Some (None, r2, w2)"
    by (simp add: monitor_recording.simps is_recording_def
        start_segment_def start_recording_def check_disk_space_def
        new_StreamRecorder_def idle_recorder_def sample_rworld_def sample_os_def Let_def)
  then obtain r2 w2 where m: "monitor_recording (fst (snd ?s)) (snd (snd ?s)) = Some (None, r2, w2)"
    by blast
  from iteration_stops_and_appends
    [where url = "''https://example.org/live.m3u8''" and nm = "''Chan''" and r = idle_recorder
       and w = sample_rworld and ?r1.0 = "fst (snd ?s)" and ?w1.0 = "snd (snd ?s)"
       and ?r2.0 = r2 and ?w2.0 = w2 and mx = 5] st m
  show ?thesis by blast
qed


section \<open>Properties of the source monitor\<close>

lemma monitor_start_recording_inv:
  assumes "cs_recorder state = None" "monitor_start_recording m status state w = (s', w')"
  shows "(cs_is_recording s' \<longleftrightarrow> owns_process s') \<and> cs_is_live s' = cs_is_live state"
  using assms
  by (auto simp: monitor_start_recording_def start_failed_def owns_process_def Let_def
      dest: start_recording_owns split: sum.splits option.splits prod.splits)

lemma monitor_stop_recording_inv:
  assumes "monitor_stop_recording state w = (s', w')"
  shows "cs_recorder s' = None \<and> \<not> cs_is_recording s' \<and> cs_is_live s' = cs_is_live state"
  using assms
  by (auto simp: monitor_stop_recording_def stop_session_def clear_session_def
      split: option.splits if_splits prod.splits)

lemma stop_session_inside:
  assumes "state_inv state"
  shows "cs_is_recording (fst (stop_session state w)) = cs_is_recording state \<and>
         \<not> owns_process (fst (stop_session state w))"
proof (cases "cs_recorder state")
  case None
  then show ?thesis
    by (simp add: stop_session_def owns_process_def)
next
  case (Some recorder)
  show ?thesis
  proof (cases "cs_is_recording state")
    case False
    with assms Some show ?thesis
      by (simp add: stop_session_def state_inv_def)
  next
    case True
    obtain part r' os' where s: "stop_recording (mw_os w) recorder = (part, r', os')"
      by (cases "stop_recording (mw_os w) recorder") auto
    from stop_recording_stops [OF s] have "p_process r' = None"
      by simp
    with Some True s show ?thesis
      by (simp add: stop_session_def owns_process_def)
  qed
qed

lemma check_channel_inv:
  assumes "state_inv state" "check_channel m state w = (x, s', w')"
  shows "state_inv s'"
proof (cases "shd (mw_channel_live_status w)")
  case (Inl e)
  with assms show ?thesis
    by (auto simp: check_channel_def state_inv_def owns_process_def Let_def split: if_splits)
next
  case (Inr status)
  let ?w1 = "w\<lparr>mw_channel_live_status := stl (mw_channel_live_status w)\<rparr>"
  let ?s1 = "state\<lparr>cs_last_check := Some (shd (os_clock (mw_os ?w1))), cs_last_error := None\<rparr>"
  let ?w2 = "?w1\<lparr>mw_os := (mw_os ?w1)\<lparr>os_clock := stl (os_clock (mw_os ?w1))\<rparr>\<rparr>"
  have inv1: "state_inv ?s1"
    using assms(1) by (simp add: state_inv_def owns_process_def)
  show ?thesis
  proof (cases "is_live status")
    case True
    note live = this
    show ?thesis
    proof (cases "cs_is_live state")
      case False
      obtain s2 w2 where st: "monitor_start_recording m status ?s1 ?w2 = (s2, w2)"
        by (cases "monitor_start_recording m status ?s1 ?w2")
      have "cs_recorder ?s1 = None"
        using inv1 False by (simp add: state_inv_def)
      from monitor_start_recording_inv [OF this st]
      have "state_inv (s2\<lparr>cs_is_live := True\<rparr>)"
        by (simp add: state_inv_def owns_process_def)
      moreover have "s' = s2\<lparr>cs_is_live := True\<rparr>"
        using assms(2) Inr live False st by (simp add: check_channel_def Let_def)
      ultimately show ?thesis by simp
    next
      case True
      show ?thesis
      proof (cases "video_id status = cs_current_video_id state")
        case True
        with assms(2) Inr live \<open>cs_is_live state\<close> have "s' = ?s1\<lparr>cs_is_live := True\<rparr>"
          by (simp add: check_channel_def Let_def)
        with inv1 show ?thesis
          by (simp add: state_inv_def owns_process_def)
      next
        case False
        obtain s2 w2 where sp: "monitor_stop_recording ?s1 ?w2 = (s2, w2)"
          by (cases "monitor_stop_recording ?s1 ?w2")
        obtain s3 w3 where st: "monitor_start_recording m status s2 w2 = (s3, w3)"
          by (cases "monitor_start_recording m status s2 w2")
        from monitor_stop_recording_inv [OF sp] have "cs_recorder s2 = None" by simp
        from monitor_start_recording_inv [OF this st]
        have "state_inv (s3\<lparr>cs_is_live := True\<rparr>)"
          by (simp add: state_inv_def owns_process_def)
        moreover have "s' = s3\<lparr>cs_is_live := True\<rparr>"
          using assms(2) Inr live \<open>cs_is_live state\<close> False sp st
          by (simp add: check_channel_def Let_def)
        ultimately show ?thesis by simp
      qed
    qed
  next
    case False
    note off = this
    show ?thesis
    proof (cases "cs_is_live state")
      case False
      with assms(2) Inr off have "s' = ?s1\<lparr>cs_is_live := False\<rparr>"
        by (simp add: check_channel_def Let_def)
      with inv1 False show ?thesis
        by (simp add: state_inv_def owns_process_def)
    next
      case True
      obtain s2 w2 where sp: "monitor_stop_recording ?s1 ?w2 = (s2, w2)"
        by (cases "monitor_stop_recording ?s1 ?w2")
      from monitor_stop_recording_inv [OF sp]
      have "state_inv (s2\<lparr>cs_is_live := False\<rparr>)"
        by (simp add: state_inv_def owns_process_def)
      moreover have "s' = s2\<lparr>cs_is_live := False\<rparr>"
        using assms(2) Inr off True sp by (simp add: check_channel_def Let_def)
      ultimately show ?thesis by simp
    qed
  qed
qed

lemma step_inv: "state_inv (fst sw) \<Longrightarrow> state_inv (fst (step m sw ev))"
proof (cases sw)
  case (Pair state w)
  assume "state_inv (fst sw)"
  with Pair have i: "state_inv state" by simp
  show ?thesis
  proof (cases ev)
    case Poll
    obtain x s' w' where c: "check_channel m state w = (x, s', w')"
      by (cases "check_channel m state w") auto
    from check_channel_inv [OF i c] Pair Poll c show ?thesis by simp
  next
    case CoordinatorStop
    obtain s' w' where c: "monitor_stop_recording state w = (s', w')"
      by (cases "monitor_stop_recording state w")
    from monitor_stop_recording_inv [OF c] i Pair CoordinatorStop c show ?thesis
      by (simp add: state_inv_def owns_process_def)
  next
    case ProcessExit
    with i Pair show ?thesis
      by (auto simp: state_inv_def owns_process_def process_exits_def split: option.splits)
  qed
qed

lemma run_inv: "state_inv (fst sw) \<Longrightarrow> state_inv (fst (run m events sw))"
  unfolding run_def by (induction events arbitrary: sw) (simp_all add: step_inv)

lemma initial_state_inv: "state_inv (initial_state ch)"
  by (simp add: state_inv_def initial_state_def owns_process_def)

lemma live_owns: "owns_live_process s \<Longrightarrow> owns_process s"
  by (auto simp: owns_live_process_def owns_process_def is_recording_def split: option.splits)

text \<open>
  Claim C4, as stated, fails in two ways. In the sample environment, where the capture
  process has exited by the first probe, after the polls offline, live with A, live with
  A the flag of the source is set although \<^verbatim>\<open>is_recording()\<close> of its recorder is
  false: the monitor never probes the process, the flag changes on poll results only. And
  inside \<^verbatim>\<open>_stop_recording\<close>, when \<^verbatim>\<open>recorder.stop_recording()\<close> has returned and
  the fields of the state are not yet cleared, the flag is set although the recorder owns
  no handle at all, here for a source that was recording a process that does not exit.
\<close>

theorem recording_flag_counterexample:
  "cs_is_recording
     (fst (run sample_monitor [Poll, Poll, Poll] (initial_state sample_channel, sample_mworld))) \<and>
   \<not> owns_live_process
     (fst (run sample_monitor [Poll, Poll, Poll] (initial_state sample_channel, sample_mworld))) \<and>
   cs_is_recording
     (fst (stop_session
        (fst (run sample_monitor [Poll, Poll] (initial_state sample_channel, running_mworld)))
        (snd (run sample_monitor [Poll, Poll] (initial_state sample_channel, running_mworld))))) \<and>
   \<not> owns_process
     (fst (stop_session
        (fst (run sample_monitor [Poll, Poll] (initial_state sample_channel, running_mworld)))
        (snd (run sample_monitor [Poll, Poll] (initial_state sample_channel, running_mworld)))))"
  by (simp add: run_def check_channel_def monitor_start_recording_def monitor_stop_recording_def
      stop_session_def clear_session_def running_mworld_def owns_process_def
      start_recording_def stop_recording_def check_disk_space_def get_recording_duration_def
      new_StreamRecorder_def start_failed_def initial_state_def Let_def
      sample_mworld_def sample_os_def sample_monitor_def sample_channel_def
      live_status_def offline_status_def owns_live_process_def is_recording_def)

text \<open>
  Claim C4, amended. Take any state that a source reaches from its initial state by polls,
  by the coordinator stopping it and by its capture process exiting, in any environment,
  each of these calls run to its end. In such a state, between the calls, the flag
  \<^verbatim>\<open>is_recording\<close> is set if and only if the state holds a recorder that owns a process
  handle, whether or not the process has exited. So a recorder with a running process
  implies the flag; the flag does not imply that the process still runs. Inside a call of
  \<^verbatim>\<open>_stop_recording\<close> that starts in such a state, after
  \<^verbatim>\<open>recorder.stop_recording()\<close> and before the fields are cleared, the flag is as it
  was and the recorder owns no handle.
\<close>

theorem recording_flag_invariant:
  "(cs_is_recording (fst (run m events (initial_state ch, w))) \<longleftrightarrow>
      owns_process (fst (run m events (initial_state ch, w)))) \<and>
   (owns_live_process (fst (run m events (initial_state ch, w))) \<longrightarrow>
      cs_is_recording (fst (run m events (initial_state ch, w)))) \<and>
   cs_is_recording (fst (stop_session (fst (run m events (initial_state ch, w))) w')) =
     cs_is_recording (fst (run m events (initial_state ch, w))) \<and>
   \<not> owns_process (fst (stop_session (fst (run m events (initial_state ch, w))) w'))"
proof -
  have inv: "state_inv (fst (run m events (initial_state ch, w)))"
    by (rule run_inv) (simp add: initial_state_inv)
  from stop_session_inside [OF inv, of w'] inv show ?thesis
    using live_owns by (auto simp: state_inv_def)
qed

theorem recording_flag_invariant_witness:
  "owns_live_process
     (fst (run sample_monitor [Poll, Poll] (initial_state sample_channel, running_mworld))) \<and>
   cs_is_recording
     (fst (run sample_monitor [Poll, Poll] (initial_state sample_channel, running_mworld)))"
proof -
  have "owns_live_process
     (fst (run sample_monitor [Poll, Poll] (initial_state sample_channel, running_mworld)))"
    by (simp add: run_def check_channel_def monitor_start_recording_def monitor_stop_recording_def
      stop_session_def clear_session_def
      start_recording_def stop_recording_def check_disk_space_def get_recording_duration_def
      new_StreamRecorder_def start_failed_def initial_state_def Let_def running_mworld_def
      sample_mworld_def sample_os_def sample_monitor_def sample_channel_def
      live_status_def offline_status_def owns_live_process_def is_recording_def)
  with recording_flag_invariant [of sample_monitor "[Poll, Poll]" sample_channel running_mworld]
  show ?thesis by blast
qed

lemma stake5:
  "stake 5 s = [a, b, c, d, e] \<Longrightarrow>
   shd s = a \<and> shd (stl s) = b \<and> shd (stl (stl s)) = c \<and> shd (stl (stl (stl s))) = d \<and>
   shd (stl (stl (stl (stl s)))) = e"
  by (simp add: eval_nat_numeral)

lemma all_less_2: "(\<forall>k<2. P k) \<longleftrightarrow> P 0 \<and> P (Suc 0)"
  by (auto simp: less_Suc_eq numeral_2_eq_2)

text \<open>
  Claim C3. From the initial state of a source, five polls that return not live, live
  with the stream A, live with A, live with B and not live make the monitor do this to
  the processes of the operating system, and nothing else: launch a capture process on
  the URL resolved for A (at the second poll), terminate that process and launch one on
  the URL resolved for B (at the fourth poll), terminate that one (at the fifth). After
  the second and the third poll the source is flagged as recording A and its recorder
  owns the first process, after the fourth it is flagged as recording B with the second
  process, and after the fifth it has no recorder and is not flagged. This holds provided
  the two starts succeed: the URL is resolved, the recorder is built, the disk check
  passes and the process is launched. A and B are different streams.
\<close>

theorem monitor_transition_sequence:
  assumes polls: "stake 5 (mw_channel_live_status w) = [Inr s0, Inr s1, Inr s2, Inr s3, Inr s4]"
    and s0: "\<not> is_live s0"
    and s1: "is_live s1 \<and> video_id s1 = Some A"
    and s2: "is_live s2 \<and> video_id s2 = Some A"
    and s3: "is_live s3 \<and> video_id s3 = Some B"
    and s4: "\<not> is_live s4"
    and AB: "A \<noteq> B"
    and urlA: "(mw_get_stream_url w !! 0) (Some A) (set_quality (mon_settings m)) = Inr uA"
    and urlB: "(mw_get_stream_url w !! 1) (Some B) (set_quality (mon_settings m)) = Inr uB"
    and dirs: "\<forall>k<2. mw_ensure_directory w !! k = None"
    and os: "launches 2 (mw_os w)"
  shows "\<exists>cmdA pA cmdB pB.
           (os_popen (mw_os w) !! 0) cmdA = Inr pA \<and> last cmdA = uA \<and>
           (os_popen (mw_os w) !! 1) cmdB = Inr pB \<and> last cmdB = uB \<and>
           os_events (mw_os (snd (run m [Poll] (initial_state ch, w)))) = os_events (mw_os w) \<and>
           os_events (mw_os (snd (run m [Poll, Poll] (initial_state ch, w)))) = os_events (mw_os w) @ [Launch cmdA (pid pA)] \<and>
           cs_is_recording (fst (run m [Poll, Poll] (initial_state ch, w))) \<and>
           cs_current_video_id (fst (run m [Poll, Poll] (initial_state ch, w))) = Some A \<and>
           map_option p_process (cs_recorder (fst (run m [Poll, Poll] (initial_state ch, w)))) = Some (Some pA) \<and>
           os_events (mw_os (snd (run m [Poll, Poll, Poll] (initial_state ch, w)))) = os_events (mw_os w) @ [Launch cmdA (pid pA)] \<and>
           cs_is_recording (fst (run m [Poll, Poll, Poll] (initial_state ch, w))) \<and>
           cs_current_video_id (fst (run m [Poll, Poll, Poll] (initial_state ch, w))) = Some A \<and>
           map_option p_process (cs_recorder (fst (run m [Poll, Poll, Poll] (initial_state ch, w)))) = Some (Some pA) \<and>
           os_events (mw_os (snd (run m [Poll, Poll, Poll, Poll] (initial_state ch, w)))) =
             os_events (mw_os w) @ [Launch cmdA (pid pA), Terminate (pid pA), Launch cmdB (pid pB)] \<and>
           cs_is_recording (fst (run m [Poll, Poll, Poll, Poll] (initial_state ch, w))) \<and>
           cs_current_video_id (fst (run m [Poll, Poll, Poll, Poll] (initial_state ch, w))) = Some B \<and>
           map_option p_process (cs_recorder (fst (run m [Poll, Poll, Poll, Poll] (initial_state ch, w)))) = Some (Some pB) \<and>
           os_events (mw_os (snd (run m [Poll, Poll, Poll, Poll, Poll] (initial_state ch, w)))) =
             os_events (mw_os w) @ [Launch cmdA (pid pA), Terminate (pid pA), Launch cmdB (pid pB),
                     Terminate (pid pB)] \<and>
           \<not> cs_is_recording (fst (run m [Poll, Poll, Poll, Poll, Poll] (initial_state ch, w))) \<and>
           cs_recorder (fst (run m [Poll, Poll, Poll, Poll, Poll] (initial_state ch, w))) = None"
proof -
  note p = stake5 [OF polls]
  from urlA urlB have u: "shd (mw_get_stream_url w) (Some A) (set_quality (mon_settings m)) = Inr uA"
    "shd (stl (mw_get_stream_url w)) (Some B) (set_quality (mon_settings m)) = Inr uB"
    by simp_all
  from dirs have d: "shd (mw_ensure_directory w) = None" "shd (stl (mw_ensure_directory w)) = None"
    by (auto simp: all_less_2)
  from os have dk: "disk_ok (shd (os_disk_usage (mw_os w)))"
    "disk_ok (shd (stl (os_disk_usage (mw_os w))))"
    by (auto simp: launches_def all_less_2)
  from os have "\<exists>g. \<forall>cmd. shd (os_popen (mw_os w)) cmd = Inr (g cmd)"
    by (intro choice) (auto simp: launches_def all_less_2)
  then obtain g0 where g0: "\<And>cmd. shd (os_popen (mw_os w)) cmd = Inr (g0 cmd)" by blast
  from os have "\<exists>g. \<forall>cmd. shd (stl (os_popen (mw_os w))) cmd = Inr (g cmd)"
    by (intro choice) (auto simp: launches_def all_less_2)
  then obtain g1 where g1: "\<And>cmd. shd (stl (os_popen (mw_os w))) cmd = Inr (g1 cmd)" by blast
  have "\<exists>cmdA pA cmdB pB.
          (os_popen (mw_os w) !! 0) cmdA = Inr pA \<and> last cmdA = uA \<and>
          (os_popen (mw_os w) !! 1) cmdB = Inr pB \<and> last cmdB = uB \<and>
          (case run m [Poll] (initial_state ch, w) of (s, w') \<Rightarrow> os_events (mw_os w') = os_events (mw_os w)) \<and>
          (case run m [Poll, Poll] (initial_state ch, w) of
             (s, w') \<Rightarrow>
               os_events (mw_os w') = os_events (mw_os w) @ [Launch cmdA (pid pA)] \<and> cs_is_recording s \<and>
               cs_current_video_id s = Some A \<and>
               map_option p_process (cs_recorder s) = Some (Some pA)) \<and>
          (case run m [Poll, Poll, Poll] (initial_state ch, w) of
             (s, w') \<Rightarrow>
               os_events (mw_os w') = os_events (mw_os w) @ [Launch cmdA (pid pA)] \<and> cs_is_recording s \<and>
               cs_current_video_id s = Some A \<and>
               map_option p_process (cs_recorder s) = Some (Some pA)) \<and>
          (case run m [Poll, Poll, Poll, Poll] (initial_state ch, w) of
             (s, w') \<Rightarrow>
               os_events (mw_os w') =
                 os_events (mw_os w) @ [Launch cmdA (pid pA), Terminate (pid pA), Launch cmdB (pid pB)] \<and>
               cs_is_recording s \<and> cs_current_video_id s = Some B \<and>
               map_option p_process (cs_recorder s) = Some (Some pB)) \<and>
          (case run m [Poll, Poll, Poll, Poll, Poll] (initial_state ch, w) of
             (s, w') \<Rightarrow>
               os_events (mw_os w') =
                 os_events (mw_os w) @ [Launch cmdA (pid pA), Terminate (pid pA), Launch cmdB (pid pB),
                         Terminate (pid pB)] \<and>
               \<not> cs_is_recording s \<and> cs_recorder s = None)"
    using s0 s1 s2 s3 s4 AB
    by (simp add: run_def check_channel_def monitor_start_recording_def monitor_stop_recording_def
      stop_session_def clear_session_def
      start_recording_def stop_recording_def check_disk_space_ok get_recording_duration_def
      new_StreamRecorder_def start_failed_def initial_state_def Let_def p u d dk g0 g1
      split: option.splits)
  then show ?thesis
    by (simp only: case_prod_beta conj_assoc)
qed

theorem monitor_transition_sequence_witness:
  "stake 5 (mw_channel_live_status sample_mworld) =
     [Inr offline_status, Inr (live_status ''A''), Inr (live_status ''A''),
      Inr (live_status ''B''), Inr offline_status] \<and>
   launches 2 (mw_os sample_mworld) \<and>
   (mw_get_stream_url sample_mworld !! 0) (Some ''A'') (set_quality (mon_settings sample_monitor)) =
     Inr ''https://example.org/A.m3u8'' \<and>
   (mw_get_stream_url sample_mworld !! 1) (Some ''B'') (set_quality (mon_settings sample_monitor)) =
     Inr ''https://example.org/B.m3u8'' \<and>
   (\<exists>cmdA cmdB.
      last cmdA = ''https://example.org/A.m3u8'' \<and> last cmdB = ''https://example.org/B.m3u8'' \<and>
      os_events (mw_os (snd (run sample_monitor [Poll, Poll]
                               (initial_state sample_channel, sample_mworld)))) =
        [Launch cmdA 1] \<and>
      os_events (mw_os (snd (run sample_monitor [Poll, Poll, Poll, Poll, Poll]
                               (initial_state sample_channel, sample_mworld)))) =
        [Launch cmdA 1, Terminate 1, Launch cmdB 2, Terminate 2] \<and>
      cs_current_video_id (fst (run sample_monitor [Poll, Poll, Poll, Poll]
                                  (initial_state sample_channel, sample_mworld))) = Some ''B'' \<and>
      cs_recorder (fst (run sample_monitor [Poll, Poll, Poll, Poll, Poll]
                          (initial_state sample_channel, sample_mworld))) = None)"
proof -
  have polls: "stake 5 (mw_channel_live_status sample_mworld) =
     [Inr offline_status, Inr (live_status ''A''), Inr (live_status ''A''),
      Inr (live_status ''B''), Inr offline_status]"
    by (simp add: sample_mworld_def eval_nat_numeral)
  have s0: "\<not> is_live offline_status"
    by (simp add: offline_status_def)
  have sA: "is_live (live_status ''A'') \<and> video_id (live_status ''A'') = Some ''A''"
    by (simp add: live_status_def)
  have sB: "is_live (live_status ''B'') \<and> video_id (live_status ''B'') = Some ''B''"
    by (simp add: live_status_def)
  have AB: "''A'' \<noteq> ''B''" by simp
  have uA: "(mw_get_stream_url sample_mworld !! 0) (Some ''A'')
              (set_quality (mon_settings sample_monitor)) = Inr ''https://example.org/A.m3u8''"
    by (simp add: sample_mworld_def sample_url_def)
  have uB: "(mw_get_stream_url sample_mworld !! 1) (Some ''B'')
              (set_quality (mon_settings sample_monitor)) = Inr ''https://example.org/B.m3u8''"
    by (simp add: sample_mworld_def sample_url_def)
  have dirs: "\<forall>k<2. mw_ensure_directory sample_mworld !! k = None"
    by (simp add: sample_mworld_def)
  have os: "launches 2 (mw_os sample_mworld)"
    by (simp add: launches_def all_less_2 disk_ok_def sample_mworld_def sample_os_def)
  have ev: "os_events (mw_os sample_mworld) = []"
    by (simp add: sample_mworld_def sample_os_def)
  have pop: "(os_popen (mw_os sample_mworld) !! 0) c = Inr p \<longleftrightarrow> p = Process 1 (Some 0)"
    "(os_popen (mw_os sample_mworld) !! 1) c = Inr p \<longleftrightarrow> p = Process 2 (Some 0)" for c p
    by (auto simp: sample_mworld_def sample_os_def)
  from monitor_transition_sequence [OF polls s0 sA sA sB s0 AB uA uB dirs os, of sample_channel]
  have "\<exists>cmdA cmdB.
      last cmdA = ''https://example.org/A.m3u8'' \<and> last cmdB = ''https://example.org/B.m3u8'' \<and>
      os_events (mw_os (snd (run sample_monitor [Poll, Poll]
                               (initial_state sample_channel, sample_mworld)))) =
        [Launch cmdA 1] \<and>
      os_events (mw_os (snd (run sample_monitor [Poll, Poll, Poll, Poll, Poll]
                               (initial_state sample_channel, sample_mworld)))) =
        [Launch cmdA 1, Terminate 1, Launch cmdB 2, Terminate 2] \<and>
      cs_current_video_id (fst (run sample_monitor [Poll, Poll, Poll, Poll]
                                  (initial_state sample_channel, sample_mworld))) = Some ''B'' \<and>
      cs_recorder (fst (run sample_monitor [Poll, Poll, Poll, Poll, Poll]
                          (initial_state sample_channel, sample_mworld))) = None"
    unfolding ev pop by (elim exE conjE) (intro exI conjI, simp_all)
  with polls os uA uB show ?thesis
    by (simp only: simp_thms)
qed

end
